theory Spec2Isabelle
  imports Complex_Main "HOL-Library.Log_Nat" "HOL-Library.Sublist" "HOL-Library.AList"
begin

section \<open>Python values used by the recorder, the resolver and the replayer\<close>

text \<open>
  Exceptions are values: every \<^verbatim>\<open>raise\<close> of the source is an \<open>Inl\<close> of the model,
  every \<^verbatim>\<open>except\<close> a case distinction on it.
\<close>

datatype py_error =
  IndexError | RuntimeError | ZeroDivisionError | OverflowError | ValueError | SyntaxError

definition bind_err :: "'e + 'a \<Rightarrow> ('a \<Rightarrow> 'e + 'b) \<Rightarrow> 'e + 'b" where
  "bind_err m f = (case m of Inl e \<Rightarrow> Inl e | Inr v \<Rightarrow> f v)"

subsection \<open>Floats\<close>

text \<open>
  A Python \<^verbatim>\<open>float\<close> is an IEEE 754 binary64 number. A finite one is denoted by
  its exact rational value; \<open>round_binary64\<close> is the rounding every arithmetic
  operation applies to its exact result: to the nearest number with a 53 bit
  significand (or, below \<open>2 powi (-1022)\<close>, to the nearest multiple of
  \<open>2 powi (-1074)\<close>), ties to the even significand. \<open>floor_log2 x\<close> is the
  exponent of a positive \<open>x\<close>: the \<open>e\<close> with \<open>2 powi e \<le> x < 2 powi (e + 1)\<close>.
\<close>

definition round_half_even :: "rat \<Rightarrow> int" where
  "round_half_even x =
     (let f = \<lfloor>x\<rfloor>; r = x - of_int f
      in if r < 1 / 2 then f else if 1 / 2 < r then f + 1 else if even f then f else f + 1)"

definition floor_log2 :: "rat \<Rightarrow> int" where
  "floor_log2 x =
     (let (n, d) = quotient_of x; e = bitlen n - bitlen d
      in if 2 powi e \<le> x then e else e - 1)"

definition round_binary64 :: "rat \<Rightarrow> rat" where
  "round_binary64 x =
     (if x = 0 then 0
      else let a = \<bar>x\<bar>; q = max (floor_log2 a - 52) (- 1074)
           in sgn x * of_int (round_half_even (a / 2 powi q)) * 2 powi q)"

datatype pyfloat = Finite rat | PosInf | NegInf

text \<open>The largest exponent of a finite binary64 number is 1023.\<close>

definition classify :: "rat \<Rightarrow> pyfloat" where
  "classify r =
     (if floor_log2 \<bar>r\<bar> \<le> 1023 then Finite r else if 0 < r then PosInf else NegInf)"

definition to_pyfloat :: "rat \<Rightarrow> pyfloat" where
  "to_pyfloat x = classify (round_binary64 x)"

text \<open>\<^verbatim>\<open>a / b\<close> on two ints: correctly rounded, and an exception where no finite
  float is the result.\<close>

definition int_true_divide :: "int \<Rightarrow> int \<Rightarrow> py_error + rat" where
  "int_true_divide a b =
     (if b = 0 then Inl ZeroDivisionError
      else case to_pyfloat (of_int a / of_int b) of
             Finite q \<Rightarrow> Inr q
           | _ \<Rightarrow> Inl OverflowError)"

text \<open>\<^verbatim>\<open>f * n\<close> on a float and an int: the int is converted first (an int beyond
  the finite range raises), the product is rounded and may be infinite.\<close>

definition float_of_int :: "int \<Rightarrow> py_error + rat" where
  "float_of_int n =
     (case to_pyfloat (of_int n) of Finite w \<Rightarrow> Inr w | _ \<Rightarrow> Inl OverflowError)"

definition float_mul_int :: "rat \<Rightarrow> int \<Rightarrow> py_error + pyfloat" where
  "float_mul_int f n = bind_err (float_of_int n) (\<lambda>w. Inr (to_pyfloat (f * w)))"

text \<open>\<^verbatim>\<open>int(f)\<close> truncates toward zero; an infinity raises.\<close>

definition truncate_rat :: "rat \<Rightarrow> int" where
  "truncate_rat x = (if 0 \<le> x then \<lfloor>x\<rfloor> else \<lceil>x\<rceil>)"

definition py_int :: "pyfloat \<Rightarrow> py_error + int" where
  "py_int f = (case f of Finite x \<Rightarrow> Inr (truncate_rat x) | _ \<Rightarrow> Inl OverflowError)"

text \<open>\<^verbatim>\<open>a % b\<close> on ints: the remainder of floor division, as \<open>mod\<close> on \<open>int\<close>.\<close>

definition py_mod :: "int \<Rightarrow> int \<Rightarrow> py_error + int" where
  "py_mod a b = (if b = 0 then Inl ZeroDivisionError else Inr (a mod b))"

text \<open>Float subtraction of two finite floats, and \<^verbatim>\<open>round(f, 2)\<close>: the exact value
  is rounded to two decimals (ties to even), and the decimal to the nearest float.
  Clock readings and their differences are far below \<open>2 ^ 1024\<close>, so these two
  are not given the infinite results.\<close>

definition float_sub :: "rat \<Rightarrow> rat \<Rightarrow> rat" where
  "float_sub a b = round_binary64 (a - b)"

definition py_round2 :: "rat \<Rightarrow> rat" where
  "py_round2 x = round_binary64 (of_int (round_half_even (x * 100)) / 100)"

subsection \<open>Strings\<close>

text \<open>
  A \<^verbatim>\<open>str\<close> is a \<open>string\<close>, one \<open>char\<close> per code point; the code points are those
  below 256. On them \<open>is_space\<close> is \<^verbatim>\<open>str.isspace\<close>, \<open>lower\<close> is \<^verbatim>\<open>str.lower\<close>
  (the letters \<open>A\<close> to \<open>Z\<close> and the capitals from 192 to 222, the sign at 215 apart)
  and \<open>is_digit_char\<close> is \<^verbatim>\<open>str.isdigit\<close> (which also accepts the superscripts 1, 2
  and 3, that \<^verbatim>\<open>int()\<close> refuses). \<open>upper\<close> is \<^verbatim>\<open>str.upper\<close> but for the code points
  181, 223 and 255, which it leaves: Python writes them with capitals beyond 255 or
  as \<open>SS\<close>, and like \<open>upper\<close> gives no ASCII letter for them.
\<close>

definition is_space :: "char \<Rightarrow> bool" where
  "is_space c =
     (let n = of_char c :: nat
      in (9 \<le> n \<and> n \<le> 13) \<or> (28 \<le> n \<and> n \<le> 32) \<or> n = 133 \<or> n = 160)"

definition strip :: "string \<Rightarrow> string" where
  "strip s = rev (dropWhile is_space (rev (dropWhile is_space s)))"

fun split_ws :: "string \<Rightarrow> string \<Rightarrow> string list" where
  "split_ws cur [] = (if cur = [] then [] else [cur])"
| "split_ws cur (c # cs) =
     (if is_space c then (if cur = [] then split_ws [] cs else cur # split_ws [] cs)
      else split_ws (cur @ [c]) cs)"

definition split :: "string \<Rightarrow> string list" where
  "split s = split_ws [] s"

definition lower_char :: "char \<Rightarrow> char" where
  "lower_char c =
     (let n = of_char c :: nat
      in if (65 \<le> n \<and> n \<le> 90) \<or> (192 \<le> n \<and> n \<le> 222 \<and> n \<noteq> 215) then char_of (n + 32)
         else c)"

definition lower :: "string \<Rightarrow> string" where
  "lower s = map lower_char s"

definition upper_char :: "char \<Rightarrow> char" where
  "upper_char c =
     (let n = of_char c :: nat
      in if (97 \<le> n \<and> n \<le> 122) \<or> (224 \<le> n \<and> n \<le> 254 \<and> n \<noteq> 247) then char_of (n - 32)
         else c)"

definition upper :: "string \<Rightarrow> string" where
  "upper s = map upper_char s"

text \<open>\<^verbatim>\<open>s.replace(c, rep)\<close> for a pattern of one character.\<close>

definition replace_char :: "char \<Rightarrow> string \<Rightarrow> string \<Rightarrow> string" where
  "replace_char c rep s = concat (map (\<lambda>d. if d = c then rep else [d]) s)"

text \<open>\<^verbatim>\<open>needle in hay\<close> on strings is \<open>sublist needle hay\<close>.\<close>

definition is_ascii_digit :: "char \<Rightarrow> bool" where
  "is_ascii_digit c = (let n = of_char c :: nat in 48 \<le> n \<and> n \<le> 57)"

definition is_digit_char :: "char \<Rightarrow> bool" where
  "is_digit_char c =
     (let n = of_char c :: nat in is_ascii_digit c \<or> n = 178 \<or> n = 179 \<or> n = 185)"

definition isdigit :: "string \<Rightarrow> bool" where
  "isdigit s = (s \<noteq> [] \<and> list_all is_digit_char s)"

fun digits_value :: "int \<Rightarrow> string \<Rightarrow> int" where
  "digits_value acc [] = acc"
| "digits_value acc (c # cs) = digits_value (10 * acc + (int (of_char c) - 48)) cs"

text \<open>\<^verbatim>\<open>int(s)\<close> on a string that \<^verbatim>\<open>isdigit\<close> accepted.\<close>

definition int_of_str :: "string \<Rightarrow> py_error + int" where
  "int_of_str s =
     (if s \<noteq> [] \<and> list_all is_ascii_digit s then Inr (digits_value 0 s) else Inl ValueError)"

text \<open>\<^verbatim>\<open>parts[i]\<close>: an index past the end raises.\<close>

definition index_list :: "'a list \<Rightarrow> nat \<Rightarrow> py_error + 'a" where
  "index_list xs i = (if i < length xs then Inr (xs ! i) else Inl IndexError)"

section \<open>The data model\<close>

text \<open>
  A \<open>ui_element\<close> is one accessibility node of android\_world's
  \<^verbatim>\<open>representation_utils.UIElement\<close>; every attribute is optional. An
  \<open>operation\<close> is one entry of the recorded JSON array: a Python dict, each key
  absent (\<open>None\<close>) or present. The key \<^verbatim>\<open>step_desc\<close>, a text for the log, is left
  out, and so are the calls of \<^verbatim>\<open>logging\<close> and the writes to the debug log and to
  the JSON file.
\<close>

record bbox =
  x_min :: int
  x_max :: int
  y_min :: int
  y_max :: int

record ui_element =
  elem_text :: "string option"
  content_description :: "string option"
  class_name :: "string option"
  clickable :: "bool option"
  bbox_pixels :: "bbox option"

record element_info =
  info_index :: "int option"
  info_text :: "string option"
  info_content_description :: "string option"
  info_class_name :: "string option"
  info_bbox :: "bbox option"

record operation =
  action_type :: string
  op_timestamp :: "rat option"
  op_duration :: "rat option"
  op_x :: "int option"
  op_y :: "int option"
  op_raw_x :: "int option"
  op_raw_y :: "int option"
  op_element :: "element_info option"
  op_text_key :: "string option"
  op_text :: "string option"

text \<open>The action kinds of android\_world's \<^verbatim>\<open>json_action\<close> module.\<close>

definition CLICK :: string where "CLICK = ''click''"
definition LONG_PRESS :: string where "LONG_PRESS = ''long_press''"
definition INPUT_TEXT :: string where "INPUT_TEXT = ''input_text''"

definition empty_operation :: "string \<Rightarrow> operation" where
  "empty_operation t =
     \<lparr>action_type = t, op_timestamp = None, op_duration = None, op_x = None, op_y = None,
      op_raw_x = None, op_raw_y = None, op_element = None, op_text_key = None,
      op_text = None\<rparr>"

section \<open>The recorder: \<^verbatim>\<open>RealTimeOperationRecorder\<close> of \<^verbatim>\<open>auto_init_workflow.py\<close>\<close>

text \<open>The keyboard cache is a dict from the device id to an entry; as an association
  list, read with \<open>map_of\<close> and written with \<open>AList.update\<close>.\<close>

record keyboard_entry =
  kb_text :: string
  last_input_time :: rat

record recorder =
  operations :: "operation list"
  is_recording :: bool
  start_time :: rat
  last_operation_time :: rat
  ui_elements :: "ui_element list"
  keyboard_cache :: "(string \<times> keyboard_entry) list"
  input_timeout :: rat
  screen_width :: int
  screen_height :: int
  raw_min_x :: int
  raw_max_x :: int
  raw_min_y :: int
  raw_max_y :: int

text \<open>The attributes \<^verbatim>\<open>__init__\<close> sets before it probes the touch device.\<close>

definition recorder_defaults :: recorder where
  "recorder_defaults =
     \<lparr>operations = [], is_recording = False, start_time = 0, last_operation_time = 0,
      ui_elements = [], keyboard_cache = [], input_timeout = 1,
      screen_width = 1080, screen_height = 2400,
      raw_min_x = 0, raw_max_x = 32767, raw_min_y = 0, raw_max_y = 32767\<rparr>"

subsection \<open>\<^verbatim>\<open>_init_touch_device_bounds\<close>\<close>

text \<open>
  The condition \<^verbatim>\<open>len(parts) >= 5 and parts[3].isdigit() and parts[5].isdigit()\<close>:
  with exactly five parts, \<^verbatim>\<open>parts[5]\<close> raises.
\<close>

definition probe_cond :: "string list \<Rightarrow> py_error + bool" where
  "probe_cond parts =
     (if 5 \<le> length parts
      then bind_err (index_list parts 3) (\<lambda>p3.
             if isdigit p3 then bind_err (index_list parts 5) (\<lambda>p5. Inr (isdigit p5))
             else Inr False)
      else Inr False)"

text \<open>One iteration of the loop over the lines. An exception leaves the loop and the
  \<^verbatim>\<open>try\<close> block; the assignments made before it stay.\<close>

definition probe_line :: "recorder \<Rightarrow> string \<Rightarrow> recorder \<times> py_error option" where
  "probe_line r line0 =
     (let line = strip line0 in
      if sublist ''ABS_MT_POSITION_X'' line then
        (let parts = split line in
         case probe_cond parts of
           Inl e \<Rightarrow> (r, Some e)
         | Inr False \<Rightarrow> (r, None)
         | Inr True \<Rightarrow>
             (case bind_err (index_list parts 3) int_of_str of
                Inl e \<Rightarrow> (r, Some e)
              | Inr lo \<Rightarrow>
                  (case bind_err (index_list parts 5) int_of_str of
                     Inl e \<Rightarrow> (r\<lparr>raw_min_x := lo\<rparr>, Some e)
                   | Inr hi \<Rightarrow> (r\<lparr>raw_min_x := lo, raw_max_x := hi\<rparr>, None))))
      else if sublist ''ABS_MT_POSITION_Y'' line then
        (let parts = split line in
         case probe_cond parts of
           Inl e \<Rightarrow> (r, Some e)
         | Inr False \<Rightarrow> (r, None)
         | Inr True \<Rightarrow>
             (case bind_err (index_list parts 3) int_of_str of
                Inl e \<Rightarrow> (r, Some e)
              | Inr lo \<Rightarrow>
                  (case bind_err (index_list parts 5) int_of_str of
                     Inl e \<Rightarrow> (r\<lparr>raw_min_y := lo\<rparr>, Some e)
                   | Inr hi \<Rightarrow> (r\<lparr>raw_min_y := lo, raw_max_y := hi\<rparr>, None))))
      else (r, None))"

fun probe_lines :: "recorder \<Rightarrow> string list \<Rightarrow> recorder \<times> py_error option" where
  "probe_lines r [] = (r, None)"
| "probe_lines r (l # ls) =
     (case probe_line r l of
        (r', None) \<Rightarrow> probe_lines r' ls
      | (r', Some e) \<Rightarrow> (r', Some e))"

text \<open>The two \<^verbatim>\<open>if\<close> statements after the loop.\<close>

definition degenerate_guard :: "recorder \<Rightarrow> recorder" where
  "degenerate_guard r =
     (let r1 = (if raw_max_x r \<le> raw_min_x r then r\<lparr>raw_max_x := 32767\<rparr> else r)
      in if raw_max_y r1 \<le> raw_min_y r1 then r1\<lparr>raw_max_y := 32767\<rparr> else r1)"

text \<open>The argument is what \<^verbatim>\<open>subprocess.run\<close> gave: an exception, or the lines of
  its standard output (\<^verbatim>\<open>output.splitlines()\<close>).\<close>

definition init_touch_device_bounds :: "recorder \<Rightarrow> py_error + string list \<Rightarrow> recorder" where
  "init_touch_device_bounds r probe =
     (case probe of
        Inl e \<Rightarrow> r
      | Inr lines \<Rightarrow>
          (case probe_lines r lines of
             (r', Some e) \<Rightarrow> r'
           | (r', None) \<Rightarrow> degenerate_guard r'))"

definition recorder_init :: "py_error + string list \<Rightarrow> recorder" where
  "recorder_init probe = init_touch_device_bounds recorder_defaults probe"

subsection \<open>\<^verbatim>\<open>_convert_raw_to_screen\<close>\<close>

text \<open>One axis of the \<^verbatim>\<open>try\<close> block:
  \<^verbatim>\<open>int((clamped - raw_min) / (raw_max - raw_min) * screen)\<close>, then the clamp to the
  screen.\<close>

definition scale_axis :: "int \<Rightarrow> int \<Rightarrow> int \<Rightarrow> int \<Rightarrow> py_error + int" where
  "scale_axis lo hi sdim raw =
     (let clamped = max lo (min raw hi) in
      bind_err (int_true_divide (clamped - lo) (hi - lo)) (\<lambda>q.
      bind_err (float_mul_int q sdim) (\<lambda>p.
      py_int p)))"

definition convert_try :: "recorder \<Rightarrow> int \<Rightarrow> int \<Rightarrow> py_error + int \<times> int" where
  "convert_try r raw_x raw_y =
     bind_err (scale_axis (raw_min_x r) (raw_max_x r) (screen_width r) raw_x) (\<lambda>sx.
     bind_err (scale_axis (raw_min_y r) (raw_max_y r) (screen_height r) raw_y) (\<lambda>sy.
     Inr (max 0 (min sx (screen_width r)), max 0 (min sy (screen_height r)))))"

text \<open>The \<^verbatim>\<open>except Exception\<close> branch computes the two remainders; nothing catches
  what it raises.\<close>

definition convert_raw_to_screen :: "recorder \<Rightarrow> int \<Rightarrow> int \<Rightarrow> py_error + int \<times> int" where
  "convert_raw_to_screen r raw_x raw_y =
     (case convert_try r raw_x raw_y of
        Inr p \<Rightarrow> Inr p
      | Inl e \<Rightarrow>
          bind_err (py_mod raw_x (screen_width r)) (\<lambda>sx.
          bind_err (py_mod raw_y (screen_height r)) (\<lambda>sy.
          Inr (sx, sy))))"

text \<open>Modelled from the spec's words (section 4.1): clamp to the raw range, scale,
  round to the nearest integer, clamp to the screen. For comparison with
  \<open>convert_raw_to_screen\<close>.\<close>

definition spec_axis :: "int \<Rightarrow> int \<Rightarrow> int \<Rightarrow> int \<Rightarrow> int" where
  "spec_axis lo hi sdim raw =
     (let clamped = max lo (min raw hi)
      in max 0 (min (round (of_int (clamped - lo) / of_int (hi - lo) * of_int sdim :: rat)) sdim))"

definition spec_to_screen :: "recorder \<Rightarrow> int \<Rightarrow> int \<Rightarrow> int \<times> int" where
  "spec_to_screen r raw_x raw_y =
     (spec_axis (raw_min_x r) (raw_max_x r) (screen_width r) raw_x,
      spec_axis (raw_min_y r) (raw_max_y r) (screen_height r) raw_y)"

text \<open>What \<open>scale_axis\<close> and the clamp to the screen give on one axis when nothing is
  raised, with the two float roundings written out. Since the float is not negative,
  \<^verbatim>\<open>int()\<close> is \<open>floor\<close>.\<close>

definition trunc_axis :: "int \<Rightarrow> int \<Rightarrow> int \<Rightarrow> int \<Rightarrow> int" where
  "trunc_axis lo hi sdim raw =
     (let clamped = max lo (min raw hi)
      in max 0 (min \<lfloor>round_binary64 (round_binary64
            (of_int (clamped - lo) / of_int (hi - lo)) * of_int sdim)\<rfloor> sdim))"

subsection \<open>\<^verbatim>\<open>_record_operation\<close> and \<^verbatim>\<open>record_text_input\<close>\<close>

text \<open>
  Every reading of the clock (\<^verbatim>\<open>time.time()\<close>) is an argument: \<open>now\<close>.
  \<open>kwargs\<close> is the operation the caller describes. In the dict literal
  \<^verbatim>\<open>{"timestamp": current_time, **kwargs}\<close> a timestamp among the keyword arguments
  comes last and stays; neither caller passes one. (A key passed as \<^verbatim>\<open>None\<close> is not
  told apart from a key left out.)
\<close>

definition WAIT :: string where "WAIT = ''WAIT''"

definition wait_entry :: "rat \<Rightarrow> rat \<Rightarrow> operation" where
  "wait_entry wait_duration ts =
     (empty_operation WAIT)\<lparr>op_duration := Some (py_round2 wait_duration),
                             op_timestamp := Some ts\<rparr>"

definition record_operation :: "recorder \<Rightarrow> rat \<Rightarrow> operation \<Rightarrow> recorder" where
  "record_operation r now kwargs =
     (let current_time = float_sub now (start_time r);
          wait_duration = float_sub current_time (last_operation_time r);
          ops = (if 1 < wait_duration \<and> operations r \<noteq> []
                 then operations r @ [wait_entry wait_duration (last_operation_time r)]
                 else operations r);
          operation = (case op_timestamp kwargs of
                         None \<Rightarrow> kwargs\<lparr>op_timestamp := Some current_time\<rparr>
                       | Some t \<Rightarrow> kwargs)
      in r\<lparr>operations := ops @ [operation], last_operation_time := current_time\<rparr>)"

definition record_text_input :: "recorder \<Rightarrow> rat \<Rightarrow> string \<Rightarrow> recorder" where
  "record_text_input r now txt =
     (if \<not> is_recording r \<or> strip txt = [] then r
      else record_operation r now ((empty_operation INPUT_TEXT)\<lparr>op_text := Some (strip txt)\<rparr>))"

text \<open>The attributes \<^verbatim>\<open>start_recording\<close> resets (the listener thread it starts is
  the event loop below).\<close>

definition start_recording :: "recorder \<Rightarrow> rat \<Rightarrow> ui_element list \<Rightarrow> recorder" where
  "start_recording r now elems =
     (if is_recording r then r
      else r\<lparr>is_recording := True, keyboard_cache := [], start_time := now,
             last_operation_time := 0, operations := [], ui_elements := elems\<rparr>)"

text \<open>The state in which \<open>last_operation_time\<close> is the timestamp of the last recorded
  operation: what "the previous operation's timestamp" means once something is
  recorded.\<close>

definition timestamps_consistent :: "recorder \<Rightarrow> bool" where
  "timestamps_consistent r =
     (operations r = [] \<or> op_timestamp (last (operations r)) = Some (last_operation_time r))"

subsection \<open>The keyboard: \<^verbatim>\<open>_process_keyboard_event\<close> and \<^verbatim>\<open>_check_input_timeout\<close>\<close>

definition key_table :: "(string \<times> string) list" where
  "key_table =
     [(''KEY_A'', ''a''), (''KEY_B'', ''b''), (''KEY_C'', ''c''), (''KEY_D'', ''d''),
      (''KEY_E'', ''e''), (''KEY_F'', ''f''), (''KEY_G'', ''g''), (''KEY_H'', ''h''),
      (''KEY_I'', ''i''), (''KEY_J'', ''j''), (''KEY_K'', ''k''), (''KEY_L'', ''l''),
      (''KEY_M'', ''m''), (''KEY_N'', ''n''), (''KEY_O'', ''o''), (''KEY_P'', ''p''),
      (''KEY_Q'', ''q''), (''KEY_R'', ''r''), (''KEY_S'', ''s''), (''KEY_T'', ''t''),
      (''KEY_U'', ''u''), (''KEY_V'', ''v''), (''KEY_W'', ''w''), (''KEY_X'', ''x''),
      (''KEY_Y'', ''y''), (''KEY_Z'', ''z''),
      (''KEY_1'', ''1''), (''KEY_2'', ''2''), (''KEY_3'', ''3''), (''KEY_4'', ''4''),
      (''KEY_5'', ''5''), (''KEY_6'', ''6''), (''KEY_7'', ''7''), (''KEY_8'', ''8''),
      (''KEY_9'', ''9''), (''KEY_0'', ''0''),
      (''KEY_SPACE'', '' ''), (''KEY_ENTER'', [CHR 0x0A])]"

text \<open>\<^verbatim>\<open>self._key_mapping.get(key_code, "")\<close>\<close>

definition key_mapping :: "string \<Rightarrow> string" where
  "key_mapping key_code = (case map_of key_table key_code of None \<Rightarrow> [] | Some c \<Rightarrow> c)"

definition set_kb_text :: "recorder \<Rightarrow> string \<Rightarrow> string \<Rightarrow> recorder" where
  "set_kb_text r device_id txt =
     (case map_of (keyboard_cache r) device_id of
        None \<Rightarrow> r
      | Some c \<Rightarrow>
          r\<lparr>keyboard_cache := AList.update device_id (c\<lparr>kb_text := txt\<rparr>) (keyboard_cache r)\<rparr>)"

text \<open>
  The function the thread of \<^verbatim>\<open>_check_input_timeout\<close> runs. \<open>now\<close> is the clock when
  the thread reads it, \<open>now_rec\<close> the clock \<^verbatim>\<open>_record_operation\<close> reads after it.
\<close>

definition timeout_callback :: "recorder \<Rightarrow> string \<Rightarrow> rat \<Rightarrow> rat \<Rightarrow> recorder" where
  "timeout_callback r device_id now now_rec =
     (case map_of (keyboard_cache r) device_id of
        None \<Rightarrow> r
      | Some cache \<Rightarrow>
          if strip (kb_text cache) \<noteq> [] \<and>
             input_timeout r < float_sub now (last_input_time cache)
          then set_kb_text (record_text_input r now_rec (kb_text cache)) device_id []
          else r)"

text \<open>
  \<^verbatim>\<open>_process_keyboard_event\<close>. The second component tells whether the call reached
  \<^verbatim>\<open>_check_input_timeout\<close>, which starts one thread that runs \<open>timeout_callback\<close>
  once, with no delay before it.
\<close>

definition process_keyboard_event ::
  "recorder \<Rightarrow> string \<Rightarrow> string \<times> string \<Rightarrow> rat \<Rightarrow> rat \<Rightarrow> recorder \<times> bool" where
  "process_keyboard_event r device_id key_info now now_rec =
     (let key_code = fst key_info; key_state = snd key_info;
          cache0 = (case map_of (keyboard_cache r) device_id of
                      None \<Rightarrow> \<lparr>kb_text = [], last_input_time = 0\<rparr>
                    | Some c \<Rightarrow> c);
          cache = cache0\<lparr>last_input_time := now\<rparr>;
          r1 = r\<lparr>keyboard_cache := AList.update device_id cache (keyboard_cache r)\<rparr>
      in if key_code = ''KEY_LEFTSHIFT'' then (r1, False)
         else if key_state \<noteq> ''DOWN'' then (r1, False)
         else if key_code = ''KEY_BACKSPACE''
           then (set_kb_text r1 device_id (butlast (kb_text cache)), False)
         else
           (let char = key_mapping key_code;
                txt = (if char \<noteq> [] then kb_text cache @ char else kb_text cache);
                r2 = set_kb_text r1 device_id txt
            in if key_code = ''KEY_ENTER'' \<and> strip txt \<noteq> []
               then (set_kb_text (record_text_input r2 now_rec txt) device_id [], False)
               else (r2, True)))"

text \<open>
  What happens to the recorder, in the order it happens: a key event read by the
  listener, or the run of a callback thread a key event started. Nothing else writes
  the keyboard cache while a recording runs, and time passing is not an event.
\<close>

datatype kb_event =
    Key string string string rat rat
  | Callback string rat rat

fun kb_step :: "recorder \<Rightarrow> kb_event \<Rightarrow> recorder" where
  "kb_step r (Key device_id key_code key_state now now_rec) =
     fst (process_keyboard_event r device_id (key_code, key_state) now now_rec)"
| "kb_step r (Callback device_id now now_rec) = timeout_callback r device_id now now_rec"

definition kb_run :: "recorder \<Rightarrow> kb_event list \<Rightarrow> recorder" where
  "kb_run r evs = foldl kb_step r evs"

section \<open>The device, as the executors reach it\<close>

text \<open>
  \<open>env\<close> is the \<^verbatim>\<open>AsyncAndroidEnv\<close> an executor is given. \<open>screen\<close> is what
  \<^verbatim>\<open>env.get_state(wait_to_stabilize=True).ui_elements\<close> holds after the effects so
  far (\<open>None\<close>: the call fails with \<^verbatim>\<open>AttributeError\<close>, or gives no list).
  \<^verbatim>\<open>actuation.execute_adb_action\<close> is android\_world's: here the device carries
  the action out, which the effect \<open>Execute\<close> records with the element list the
  action was given. \<^verbatim>\<open>time.sleep\<close> is the effect \<open>Sleep\<close>. An exception ends the
  run of an executor; the result then holds the exception alone.
\<close>

datatype controller_obj = AndroidWorldController | OtherObject

record json_action =
  ja_action_type :: string
  ja_index :: "int option"
  ja_x :: "int option"
  ja_y :: "int option"
  ja_text :: "string option"
  ja_clear_text :: "bool option"

datatype effect = Execute json_action "ui_element list" | Sleep rat

record env =
  is_async_env :: bool
  controller :: "controller_obj option"
  screen :: "effect list \<Rightarrow> ui_element list option"
  effects :: "effect list"

definition new_action :: "string \<Rightarrow> json_action" where
  "new_action t =
     \<lparr>ja_action_type = t, ja_index = None, ja_x = None, ja_y = None, ja_text = None,
      ja_clear_text = None\<rparr>"

definition get_valid_controller :: "env \<Rightarrow> py_error + controller_obj" where
  "get_valid_controller e =
     (case controller e of
        None \<Rightarrow> Inl RuntimeError
      | Some c \<Rightarrow> if c = AndroidWorldController then Inr c else Inl RuntimeError)"

definition get_stable_ui_elements :: "env \<Rightarrow> py_error + ui_element list" where
  "get_stable_ui_elements e =
     (case screen e (effects e) of None \<Rightarrow> Inl RuntimeError | Some elems \<Rightarrow> Inr elems)"

definition execute_adb_action :: "json_action \<Rightarrow> ui_element list \<Rightarrow> env \<Rightarrow> env" where
  "execute_adb_action a elems e = e\<lparr>effects := effects e @ [Execute a elems]\<rparr>"

definition sleep :: "rat \<Rightarrow> env \<Rightarrow> env" where
  "sleep d e = e\<lparr>effects := effects e @ [Sleep d]\<rparr>"

section \<open>The replayer: \<^verbatim>\<open>TaskOperationExecutor\<close> of \<^verbatim>\<open>real_time_operations_script.py\<close>\<close>

definition click_by_index :: "env \<Rightarrow> int \<Rightarrow> py_error + env" where
  "click_by_index e index =
     bind_err (get_valid_controller e) (\<lambda>c.
     bind_err (get_stable_ui_elements e) (\<lambda>elems.
     if \<not> (0 \<le> index \<and> index < int (length elems)) then Inl IndexError
     else Inr (sleep (3 / 2)
            (execute_adb_action ((new_action CLICK)\<lparr>ja_index := Some index\<rparr>) elems e))))"

definition click_by_coords :: "env \<Rightarrow> int option \<Rightarrow> int option \<Rightarrow> py_error + env" where
  "click_by_coords e x y =
     bind_err (get_valid_controller e) (\<lambda>c.
     bind_err (get_stable_ui_elements e) (\<lambda>elems.
     Inr (sleep (3 / 2)
       (execute_adb_action ((new_action CLICK)\<lparr>ja_x := x, ja_y := y\<rparr>) elems e))))"

definition input_text :: "env \<Rightarrow> string \<Rightarrow> py_error + env" where
  "input_text e txt =
     bind_err (get_valid_controller e) (\<lambda>c.
     bind_err (get_stable_ui_elements e) (\<lambda>elems.
     Inr (sleep 1
       (execute_adb_action
          ((new_action INPUT_TEXT)\<lparr>ja_text := Some txt, ja_clear_text := Some True\<rparr>)
          elems e))))"

text \<open>\<^verbatim>\<open>time.sleep(d)\<close> refuses a negative length.\<close>

definition time_sleep :: "env \<Rightarrow> rat \<Rightarrow> py_error + env" where
  "time_sleep e d = (if d < 0 then Inl ValueError else Inr (sleep d e))"

text \<open>
  The statements \<^verbatim>\<open>_generate_step_code\<close> of \<^verbatim>\<open>json_script_generator.py\<close> writes
  into \<^verbatim>\<open>run_operations\<close>, one per recorded operation: the \<^verbatim>\<open>try\<close> of
  \<^verbatim>\<open>_click_by_index\<close> with its \<^verbatim>\<open>except IndexError\<close>, the plain
  \<^verbatim>\<open>_click_by_coords\<close>, \<^verbatim>\<open>_input_text\<close> with its string literal (as written,
  escapes and all), the sleep, and the warning for any other action type.
\<close>

datatype stmt =
    Try_click_by_index int "int option" "int option"
  | Click_by_coords "int option" "int option"
  | Input_text string
  | Wait_sleep rat
  | Warn_unsupported string

definition escape :: "string \<Rightarrow> string" where
  "escape s =
     replace_char (CHR 0x0A) [CHR 0x5C, CHR ''n'']
       (replace_char (CHR 0x22) [CHR 0x5C, CHR 0x22]
         (replace_char (CHR 0x5C) [CHR 0x5C, CHR 0x5C] s))"

text \<open>\<open>escape\<close>, one character at a time.\<close>

definition escape_char :: "char \<Rightarrow> string" where
  "escape_char c =
     (if c = CHR 0x5C then [CHR 0x5C, CHR 0x5C]
      else if c = CHR 0x22 then [CHR 0x5C, CHR 0x22]
      else if c = CHR 0x0A then [CHR 0x5C, CHR ''n'']
      else [c])"

definition generate_step :: "operation \<Rightarrow> stmt" where
  "generate_step op =
     (if lower (action_type op) = ''click'' then
        (let index = (case op_element op of None \<Rightarrow> None | Some el \<Rightarrow> info_index el)
         in case index of
              Some i \<Rightarrow> Try_click_by_index i (op_x op) (op_y op)
            | None \<Rightarrow> Click_by_coords (op_x op) (op_y op))
      else if lower (action_type op) = ''input_text'' then
        Input_text (escape (case op_text op of None \<Rightarrow> [] | Some t \<Rightarrow> t))
      else if upper (action_type op) = ''WAIT'' then
        Wait_sleep (case op_duration op of None \<Rightarrow> 0 | Some d \<Rightarrow> d)
      else Warn_unsupported (action_type op))"

definition generate_step_code :: "operation list \<Rightarrow> stmt list" where
  "generate_step_code ops = map generate_step ops"

text \<open>
  How Python reads the body of a string literal in double quotes: the escapes
  \<open>escape\<close> writes are read back; a bare quote, line end (line feed or carriage
  return) or null character inside the literal, or a backslash at its end, makes the
  script one that does not load. No other escape is in a literal that \<open>escape\<close>
  wrote, and none is read here.
\<close>

definition breaks_literal :: "char \<Rightarrow> bool" where
  "breaks_literal c = (c = CHR 0x22 \<or> c = CHR 0x0A \<or> c = CHR 0x0D \<or> c = CHR 0x00)"

fun read_literal :: "string \<Rightarrow> string option" where
  "read_literal [] = Some []"
| "read_literal [c] = (if c = CHR 0x5C \<or> breaks_literal c then None else Some [c])"
| "read_literal (c # d # cs) =
     (if c = CHR 0x5C then
        (if d = CHR 0x5C then map_option ((#) (CHR 0x5C)) (read_literal cs)
         else if d = CHR 0x22 then map_option ((#) (CHR 0x22)) (read_literal cs)
         else if d = CHR ''n'' then map_option ((#) (CHR 0x0A)) (read_literal cs)
         else None)
      else if breaks_literal c then None
      else map_option ((#) c) (read_literal (d # cs)))"

definition well_formed :: "stmt \<Rightarrow> bool" where
  "well_formed st = (case st of Input_text lit \<Rightarrow> read_literal lit \<noteq> None | _ \<Rightarrow> True)"

fun exec_stmt :: "env \<Rightarrow> stmt \<Rightarrow> py_error + env" where
  "exec_stmt e (Try_click_by_index index x y) =
     (case click_by_index e index of
        Inr e' \<Rightarrow> Inr e'
      | Inl err \<Rightarrow> if err = IndexError then click_by_coords e x y else Inl err)"
| "exec_stmt e (Click_by_coords x y) = click_by_coords e x y"
| "exec_stmt e (Input_text lit) =
     (case read_literal lit of None \<Rightarrow> Inl SyntaxError | Some txt \<Rightarrow> input_text e txt)"
| "exec_stmt e (Wait_sleep d) = time_sleep e d"
| "exec_stmt e (Warn_unsupported t) = Inr e"

fun exec_all :: "env \<Rightarrow> stmt list \<Rightarrow> py_error + env" where
  "exec_all e [] = Inr e"
| "exec_all e (st # sts) = bind_err (exec_stmt e st) (\<lambda>e'. exec_all e' sts)"

text \<open>\<^verbatim>\<open>run_operations\<close> of a generated script: a script with a broken literal does
  not load; the first statement checks the type of \<open>env\<close>.\<close>

definition run_operations :: "stmt list \<Rightarrow> env \<Rightarrow> py_error + env" where
  "run_operations prog e =
     (if \<not> list_all well_formed prog then Inl SyntaxError
      else if \<not> is_async_env e then Inl RuntimeError
      else exec_all e prog)"

definition replay :: "operation list \<Rightarrow> env \<Rightarrow> py_error + env" where
  "replay ops e = run_operations (generate_step_code ops) e"

text \<open>The eleven steps of \<^verbatim>\<open>run_operations\<close> in \<^verbatim>\<open>real_time_operations_script.py\<close>.\<close>

definition recorded_script :: "stmt list" where
  "recorded_script =
     [Click_by_coords (Some 318) (Some 2249),
      Wait_sleep (601 / 100),
      Try_click_by_index 1 (Some 371) (Some 216),
      Wait_sleep (211 / 100),
      Input_text ''audio recorder'',
      Wait_sleep (1423 / 100),
      Click_by_coords (Some 170) (Some 432),
      Try_click_by_index 12 (Some 548) (Some 2172),
      Wait_sleep (1095 / 100),
      Try_click_by_index 40 (Some 735) (Some 2187),
      Input_text ''ccc'']"

section \<open>The resolver: \<^verbatim>\<open>AudioRecorderInitStepsWithTypingError\<close> of
  \<^verbatim>\<open>audio_recorder_init_steps.py\<close>\<close>

text \<open>\<^verbatim>\<open>for idx, elem in enumerate(ui_elements): if ...: ...; return\<close>: the index of
  the first element the condition holds for, counted from \<open>i\<close>.\<close>

fun first_index :: "('a \<Rightarrow> bool) \<Rightarrow> 'a list \<Rightarrow> nat \<Rightarrow> nat option" where
  "first_index P [] i = None"
| "first_index P (x # xs) i = (if P x then Some i else first_index P xs (Suc i))"

text \<open>\<^verbatim>\<open>desc and target.lower() in desc.lower()\<close>: a description that is absent,
  \<^verbatim>\<open>None\<close> or empty is false.\<close>

definition desc_matches :: "string \<Rightarrow> ui_element \<Rightarrow> bool" where
  "desc_matches target elem =
     (case content_description elem of
        None \<Rightarrow> False
      | Some desc \<Rightarrow> desc \<noteq> [] \<and> sublist (lower target) (lower desc))"

text \<open>\<^verbatim>\<open>elem_text and text.lower() == elem_text.lower()\<close>\<close>

definition text_matches :: "string \<Rightarrow> ui_element \<Rightarrow> bool" where
  "text_matches t elem =
     (case elem_text elem of
        None \<Rightarrow> False
      | Some s \<Rightarrow> s \<noteq> [] \<and> lower t = lower s)"

text \<open>
  The loop over \<^verbatim>\<open>target_descs\<close> in \<^verbatim>\<open>_click_element_by_content_description\<close>.
  The \<^verbatim>\<open>raise RuntimeError\<close> stands in the body of the outer loop, after the inner
  loop: the first target that matches nothing ends the call. With no target at all
  the loop body never runs and the call returns.
\<close>

fun click_desc_loop :: "env \<Rightarrow> ui_element list \<Rightarrow> string list \<Rightarrow> py_error + env" where
  "click_desc_loop e elems [] = Inr e"
| "click_desc_loop e elems (target # rest) =
     (case first_index (desc_matches target) elems 0 of
        Some idx \<Rightarrow>
          Inr (sleep (3 / 2)
            (execute_adb_action ((new_action CLICK)\<lparr>ja_index := Some (int idx)\<rparr>) elems e))
      | None \<Rightarrow> Inl RuntimeError)"

text \<open>The parameter \<^verbatim>\<open>fallback_index\<close> is never read.\<close>

definition click_element_by_content_description ::
  "env \<Rightarrow> string list \<Rightarrow> int option \<Rightarrow> py_error + env" where
  "click_element_by_content_description e target_descs fallback_index =
     bind_err (get_valid_controller e) (\<lambda>c.
     bind_err (get_stable_ui_elements e) (\<lambda>elems.
     click_desc_loop e elems target_descs))"

text \<open>The loop over \<^verbatim>\<open>target_texts\<close> in \<^verbatim>\<open>_long_press_by_text\<close>: \<open>Some\<close> when a
  text matched and the call returned, \<open>None\<close> when the loop ran to its end.\<close>

fun long_press_loop :: "env \<Rightarrow> ui_element list \<Rightarrow> string list \<Rightarrow> env option" where
  "long_press_loop e elems [] = None"
| "long_press_loop e elems (t # rest) =
     (case first_index (text_matches t) elems 0 of
        Some idx \<Rightarrow>
          Some (sleep 2
            (execute_adb_action ((new_action LONG_PRESS)\<lparr>ja_index := Some (int idx)\<rparr>) elems e))
      | None \<Rightarrow> long_press_loop e elems rest)"

definition fallback_long_press :: "env \<Rightarrow> ui_element list \<Rightarrow> int option \<Rightarrow> py_error + env" where
  "fallback_long_press e elems fallback_index =
     (case fallback_index of
        None \<Rightarrow> Inl RuntimeError
      | Some i \<Rightarrow>
          if \<not> (0 \<le> i \<and> i < int (length elems)) then Inl IndexError
          else Inr (sleep 2
                 (execute_adb_action ((new_action LONG_PRESS)\<lparr>ja_index := Some i\<rparr>) elems e)))"

definition long_press_by_text :: "env \<Rightarrow> string list \<Rightarrow> int option \<Rightarrow> py_error + env" where
  "long_press_by_text e target_texts fallback_index =
     bind_err (get_valid_controller e) (\<lambda>c.
     bind_err (get_stable_ui_elements e) (\<lambda>elems.
     case long_press_loop e elems target_texts of
       Some e' \<Rightarrow> Inr e'
     | None \<Rightarrow> fallback_long_press e elems fallback_index))"

section \<open>Devices and screens for the examples\<close>

definition text_element :: "string \<Rightarrow> ui_element" where
  "text_element t =
     \<lparr>elem_text = Some t, content_description = None, class_name = None, clickable = None,
      bbox_pixels = None\<rparr>"

definition described_element :: "string \<Rightarrow> ui_element" where
  "described_element d =
     \<lparr>elem_text = None, content_description = Some d, class_name = None, clickable = None,
      bbox_pixels = None\<rparr>"

text \<open>A device with a valid controller whose screen shows the same elements whatever
  is done.\<close>

definition static_env :: "ui_element list \<Rightarrow> env" where
  "static_env elems =
     \<lparr>is_async_env = True, controller = Some AndroidWorldController,
      screen = (\<lambda>h. Some elems), effects = []\<rparr>"

section \<open>Facts about the float operations\<close>

lemma round_half_even_diff: "\<bar>of_int (round_half_even x) - x\<bar> \<le> 1 / 2"
proof -
  have "of_int \<lfloor>x\<rfloor> \<le> x" "x < of_int \<lfloor>x\<rfloor> + 1" by linarith+
  then show ?thesis
    unfolding round_half_even_def Let_def by (auto simp: abs_le_iff)
qed

lemma round_half_even_of_int [simp]: "round_half_even (of_int n) = n"
  by (simp add: round_half_even_def)

lemma round_half_even_cases:
  fixes x :: rat
  defines "f \<equiv> \<lfloor>x\<rfloor>" and "r \<equiv> x - of_int \<lfloor>x\<rfloor>"
  shows "0 \<le> r" "r < 1"
    "round_half_even x =
      (if r < 1 / 2 then f else if 1 / 2 < r then f + 1 else if even f then f else f + 1)"
proof -
  show "0 \<le> r" "r < 1" unfolding r_def by linarith+
  show "round_half_even x =
      (if r < 1 / 2 then f else if 1 / 2 < r then f + 1 else if even f then f else f + 1)"
    by (simp add: round_half_even_def Let_def f_def r_def)
qed

text \<open>Of two integers equally near, the even one is taken; so the nearest integer,
  ties to even, is what \<open>round_half_even\<close> gives and nothing else.\<close>

lemma round_half_even_tie:
  assumes "\<bar>of_int (round_half_even x) - x\<bar> = 1 / 2"
  shows "even (round_half_even x)"
proof -
  define f where "f = \<lfloor>x\<rfloor>"
  define r where "r = x - of_int \<lfloor>x\<rfloor>"
  note c = round_half_even_cases[of x, folded f_def r_def]
  have d: "of_int f - x = - r" "of_int (f + 1) - x = 1 - r" by (simp_all add: r_def f_def)
  consider "r < 1 / 2" | "1 / 2 < r" | "r = 1 / 2" by linarith
  then show ?thesis
  proof cases
    case 1
    then have "round_half_even x = f" by (simp add: c(3))
    then have "\<bar>of_int (round_half_even x) - x\<bar> = r" using c(1) by (simp only: d, (simp)?)
    with 1 assms show ?thesis by simp
  next
    case 2
    then have "round_half_even x = f + 1" by (simp add: c(3))
    then have "\<bar>of_int (round_half_even x) - x\<bar> = 1 - r" using c(2) by (simp only: d, (simp)?)
    with 2 assms show ?thesis by simp
  next
    case 3
    then show ?thesis by (simp add: c(3))
  qed
qed

lemma round_half_even_unique:
  assumes "\<bar>of_int k - x\<bar> \<le> 1 / 2" and "\<bar>of_int k - x\<bar> = 1 / 2 \<longrightarrow> even k"
  shows "k = round_half_even x"
proof -
  define f where "f = \<lfloor>x\<rfloor>"
  define r where "r = x - of_int \<lfloor>x\<rfloor>"
  note c = round_half_even_cases[of x, folded f_def r_def]
  have d: "of_int f - x = - r" "of_int (f + 1) - x = 1 - r" by (simp_all add: r_def f_def)
  have "of_int k - x \<le> 1 / 2" "- (1 / 2) \<le> of_int k - x"
    using assms(1) by linarith+
  then have "of_int k - of_int f \<le> r + 1 / 2" "r - 1 / 2 \<le> of_int k - of_int f"
    using d(1) by linarith+
  then have "(of_int (k - f) :: rat) < of_int 2" "(of_int (- 1) :: rat) < of_int (k - f)"
    using c(1,2) by simp_all
  then have "k - f < 2" "- 1 < k - f" by (simp_all only: of_int_less_iff)
  then consider "k = f" | "k = f + 1" by linarith
  then show ?thesis
  proof cases
    case 1
    then have a: "\<bar>of_int k - x\<bar> = r" using c(1) by (simp only: d, (simp)?)
    then have "r \<le> 1 / 2" using assms(1) by simp
    moreover have "even f" if "r = 1 / 2" using that a assms(2) 1 by simp
    ultimately show ?thesis using 1 by (auto simp: c(3))
  next
    case 2
    then have a: "\<bar>of_int k - x\<bar> = 1 - r" using c(2) by (simp only: d, (simp)?)
    then have "1 / 2 \<le> r" using assms(1) by simp
    moreover have "odd f" if "r = 1 / 2" using that a assms(2) 2 by simp
    ultimately show ?thesis using 2 by (auto simp: c(3))
  qed
qed

lemma round_half_even_nonneg: "0 \<le> x \<Longrightarrow> 0 \<le> round_half_even x"
  unfolding round_half_even_def Let_def
  by (auto simp: ) 

lemma floor_log2_bounds:
  assumes "0 < x"
  shows "2 powi (floor_log2 x) \<le> x" "x < 2 powi (floor_log2 x + 1)"
proof -
  obtain n d where nd: "quotient_of x = (n, d)" by (cases "quotient_of x")
  have d: "0 < d" using nd by (rule quotient_of_denom_pos)
  have x: "x = of_int n / of_int d" using nd by (rule quotient_of_div)
  have n: "0 < n" using assms d x by (simp add: zero_less_divide_iff)
  define bn where "bn = nat (bitlen n - 1)"
  define bd where "bd = nat (bitlen d - 1)"
  have bn: "bitlen n = int bn + 1" and bd: "bitlen d = int bd + 1"
    using bitlen_bounds[OF n] bitlen_bounds[OF d] n d
    by (auto simp: bn_def bd_def bitlen_alt_def)
  have nb: "2 ^ bn \<le> n" "n < 2 ^ (bn + 1)"
    using bitlen_bounds[OF n] by (simp_all add: bn nat_add_distrib)
  have db: "2 ^ bd \<le> d" "d < 2 ^ (bd + 1)"
    using bitlen_bounds[OF d] by (simp_all add: bd nat_add_distrib)
  have e0: "bitlen n - bitlen d = int bn - int bd" by (simp add: bn bd)
  have nr: "(2::rat) ^ bn \<le> of_int n" "of_int n < (2::rat) ^ (bn + 1)"
    using nb by (metis of_int_le_iff of_int_numeral of_int_power, metis of_int_less_iff of_int_numeral of_int_power)
  have dr: "(2::rat) ^ bd \<le> of_int d" "of_int d < (2::rat) ^ (bd + 1)"
    using db by (metis of_int_le_iff of_int_numeral of_int_power, metis of_int_less_iff of_int_numeral of_int_power)
  have dpos: "(0::rat) < of_int d" using d by simp
  have up: "x < 2 powi (int bn - int bd + 1)"
  proof -
    have "x * 2 ^ bd \<le> x * of_int d" using dr(1) assms by simp
    also have "\<dots> = of_int n" using dpos by (simp add: x)
    also have "\<dots> < 2 ^ (bn + 1)" by (rule nr(2))
    finally have "x < 2 ^ (bn + 1) / 2 ^ bd" by (simp add: pos_less_divide_eq)
    also have "\<dots> = 2 powi (int bn - int bd + 1)"
      by (simp add: power_int_diff power_int_add)
    finally show ?thesis .
  qed
  have lo: "2 powi (int bn - int bd - 1) \<le> x"
  proof -
    have "(2::rat) ^ bn \<le> of_int n" by (rule nr(1))
    also have "\<dots> = x * of_int d" using dpos by (simp add: x)
    also have "\<dots> \<le> x * 2 ^ (bd + 1)" using dr(2) assms by simp
    finally have "(2::rat) ^ bn / 2 ^ (bd + 1) \<le> x" by (simp add: pos_divide_le_eq)
    moreover have "(2::rat) ^ bn / 2 ^ (bd + 1) = 2 powi (int bn - int bd - 1)"
      by (simp add: power_int_diff)
    ultimately show ?thesis by simp
  qed
  show "2 powi (floor_log2 x) \<le> x" 
    using lo by (simp add: floor_log2_def nd e0 Let_def)
  show "x < 2 powi (floor_log2 x + 1)"
    using up by (auto simp add: floor_log2_def nd e0 Let_def not_le)
qed

lemma floor_log2_less:
  assumes "0 < x" "x < 2 powi k"
  shows "floor_log2 x < k"
proof (rule ccontr)
  assume "\<not> floor_log2 x < k"
  then have "k \<le> floor_log2 x" by simp
  then have "(2::rat) powi k \<le> 2 powi (floor_log2 x)"
    by (intro power_int_increasing) simp_all
  with floor_log2_bounds(1)[OF assms(1)] assms(2) show False by simp
qed

lemma floor_log2_ge:
  assumes "0 < x" "2 powi k \<le> x"
  shows "k \<le> floor_log2 x"
proof (rule ccontr)
  assume "\<not> k \<le> floor_log2 x"
  then have "floor_log2 x + 1 \<le> k" by simp
  then have "(2::rat) powi (floor_log2 x + 1) \<le> 2 powi k"
    by (intro power_int_increasing) simp_all
  with floor_log2_bounds(2)[OF assms(1)] assms(2) show False by simp
qed

lemma round_binary64_nonneg: "0 \<le> x \<Longrightarrow> 0 \<le> round_binary64 x"
  unfolding round_binary64_def Let_def
  by (auto intro!: mult_nonneg_nonneg round_half_even_nonneg divide_nonneg_nonneg)

lemma round_binary64_error:
  assumes "0 < x"
  shows "\<bar>round_binary64 x - x\<bar> \<le> 2 powi (max (floor_log2 x - 52) (- 1074)) / 2"
proof -
  define q where "q = max (floor_log2 x - 52) (- 1074)"
  have p: "(0::rat) < 2 powi q" by simp
  have rb: "round_binary64 x = of_int (round_half_even (x / 2 powi q)) * 2 powi q"
    using assms by (simp add: round_binary64_def Let_def q_def)
  have "\<bar>of_int (round_half_even (x / 2 powi q)) - x / 2 powi q\<bar> * 2 powi q \<le> 1 / 2 * 2 powi q"
    by (intro mult_right_mono round_half_even_diff) simp
  also have "\<bar>of_int (round_half_even (x / 2 powi q)) - x / 2 powi q\<bar> * 2 powi q
      = \<bar>(of_int (round_half_even (x / 2 powi q)) - x / 2 powi q) * 2 powi q\<bar>"
    by (simp add: abs_mult)
  also have "(of_int (round_half_even (x / 2 powi q)) - x / 2 powi q) * 2 powi q = round_binary64 x - x"
    by (simp add: rb left_diff_distrib)
  finally show ?thesis by (simp add: q_def)
qed

lemma round_binary64_relative_error:
  assumes "1 \<le> y"
  shows "\<bar>round_binary64 y - y\<bar> \<le> y / 2 ^ 53"
proof -
  have y: "0 < y" using assms by simp
  have "2 powi 0 \<le> y" using assms by simp
  then have e: "0 \<le> floor_log2 y" using y by (intro floor_log2_ge)
  then have m: "max (floor_log2 y - 52) (- 1074) = floor_log2 y - 52" by simp
  have "\<bar>round_binary64 y - y\<bar> \<le> 2 powi (floor_log2 y - 52) / 2"
    using round_binary64_error[OF y] by (simp only: m)
  also have "\<dots> = 2 powi (floor_log2 y) / 2 ^ 53"
    by (simp add: power_int_diff)
  also have "\<dots> \<le> y / 2 ^ 53"
    using floor_log2_bounds(1)[OF y] by (intro divide_right_mono) simp_all
  finally show ?thesis .
qed

text \<open>\<^verbatim>\<open>round(x, 2)\<close>: the float nearest to the number of two decimals nearest to \<open>x\<close>.\<close>

lemma py_round2_nearest:
  "\<exists>k. \<bar>of_int k - 100 * x\<bar> \<le> 1 / 2 \<and> (\<bar>of_int k - 100 * x\<bar> = 1 / 2 \<longrightarrow> even k) \<and>
       py_round2 x = round_binary64 (of_int k / 100) \<and>
       (1 < x \<longrightarrow> \<bar>py_round2 x - of_int k / 100\<bar> \<le> of_int k / 100 / 2 ^ 53)"
proof -
  define k where "k = round_half_even (x * 100)"
  have n: "\<bar>of_int k - 100 * x\<bar> \<le> 1 / 2"
    using round_half_even_diff[of "x * 100"] by (simp add: k_def mult.commute)
  have t: "even k" if "\<bar>of_int k - 100 * x\<bar> = 1 / 2"
    using round_half_even_tie[of "x * 100"] that by (simp add: k_def mult.commute)
  have p: "py_round2 x = round_binary64 (of_int k / 100)"
    by (simp add: py_round2_def k_def)
  have "\<bar>py_round2 x - of_int k / 100\<bar> \<le> of_int k / 100 / 2 ^ 53" if "1 < x"
  proof -
    have "100 * x - 1 / 2 \<le> of_int k" using n by linarith
    then have "(of_int 99 :: rat) < of_int k" using that by simp
    then have "99 < k" by (simp only: of_int_less_iff)
    then have "100 \<le> k" by simp
    then have "(of_int 100 :: rat) \<le> of_int k" by (simp only: of_int_le_iff)
    then have "(1 :: rat) \<le> of_int k / 100" by simp
    then show ?thesis unfolding p by (rule round_binary64_relative_error)
  qed
  with n t p show ?thesis by blast
qed

lemma round_binary64_le:
  assumes "0 \<le> x"
  shows "round_binary64 x \<le> 2 * x + 1"
proof (cases "x = 0")
  case True
  then show ?thesis by (simp add: round_binary64_def)
next
  case False
  with assms have x: "0 < x" by simp
  define e where "e = floor_log2 x"
  have e: "2 powi e \<le> x" using floor_log2_bounds(1)[OF x] by (simp add: e_def)
  have "(2::rat) powi (max (e - 52) (- 1074)) \<le> x + 1"
  proof (cases "e - 52 \<le> - 1074")
    case True
    then have "(2::rat) powi (max (e - 52) (- 1074)) = 2 powi (- 1074)" by (simp add: max_def)
    also have "\<dots> \<le> 2 powi 0" by (intro power_int_increasing) simp_all
    finally show ?thesis using x by simp
  next
    case False
    then have "(2::rat) powi (max (e - 52) (- 1074)) = 2 powi (e - 52)" by (simp add: max_def)
    also have "\<dots> \<le> 2 powi e" by (intro power_int_increasing) simp_all
    finally show ?thesis using e by simp
  qed
  with round_binary64_error[OF x] have "\<bar>round_binary64 x - x\<bar> \<le> (x + 1) / 2"
    by (simp add: e_def)
  moreover have "round_binary64 x - x \<le> \<bar>round_binary64 x - x\<bar>" by (rule abs_ge_self)
  ultimately have "round_binary64 x - x \<le> (x + 1) / 2" by (rule order_trans[rotated])
  then show ?thesis using x by (simp add: field_simps)
qed

lemma classify_Finite:
  assumes "\<bar>r\<bar> < 2 ^ 1024"
  shows "classify r = Finite r"
proof (cases "r = 0")
  case True
  have "floor_log2 0 = - 2" by code_simp
  with True show ?thesis by (simp add: classify_def)
next
  case False
  then have "0 < \<bar>r\<bar>" by simp
  moreover have "\<bar>r\<bar> < 2 powi 1024" using assms by simp
  ultimately have "floor_log2 \<bar>r\<bar> < 1024" by (rule floor_log2_less)
  then show ?thesis by (simp add: classify_def)
qed

lemma to_pyfloat_Finite:
  assumes "0 \<le> x" "x \<le> 2 ^ 1000"
  shows "to_pyfloat x = Finite (round_binary64 x)"
proof -
  have "round_binary64 x \<le> 2 * x + 1" using assms(1) by (rule round_binary64_le)
  also have "\<dots> \<le> 2 * 2 ^ 1000 + 1" using assms(2) by simp
  also have "\<dots> < (2::rat) ^ 1024" by simp
  finally have "\<bar>round_binary64 x\<bar> < 2 ^ 1024"
    using round_binary64_nonneg[OF assms(1)] by simp
  then show ?thesis by (simp add: to_pyfloat_def classify_Finite)
qed

lemma round_binary64_of_int:
  assumes "\<bar>n\<bar> \<le> 2 ^ 53"
  shows "round_binary64 (of_int n) = of_int n"
proof (cases "n = 0")
  case True
  then show ?thesis by (simp add: round_binary64_def)
next
  case False
  define a where "a = \<bar>n\<bar>"
  have a: "0 < a" "a \<le> 2 ^ 53" using False assms by (simp_all add: a_def)
  define e where "e = floor_log2 (of_int a)"
  have ar: "(0::rat) < of_int a" using a by simp
  have "(of_int a :: rat) < 2 powi 54"
  proof -
    have "(of_int a :: rat) \<le> of_int (2 ^ 53)" using a(2) by (simp only: of_int_le_iff)
    then show ?thesis by simp
  qed
  then have e_hi: "e < 54" unfolding e_def using ar by (intro floor_log2_less)
  have "(2::rat) powi 0 \<le> of_int a" using a by simp
  then have e_lo: "0 \<le> e" unfolding e_def using ar by (intro floor_log2_ge)
  have rb: "round_binary64 (of_int n) =
      sgn (of_int n) * of_int (round_half_even (of_int a / 2 powi (e - 52))) * 2 powi (e - 52)"
    using False e_lo by (simp add: round_binary64_def Let_def a_def e_def max_def)
  have "of_int (round_half_even (of_int a / 2 powi (e - 52))) * 2 powi (e - 52) = (of_int a :: rat)"
  proof (cases "e \<le> 52")
    case True
    define k where "k = nat (52 - e)"
    have k: "e - 52 = - int k" using True by (simp add: k_def)
    have q: "(of_int a :: rat) / 2 powi (e - 52) = of_int (a * 2 ^ k)"
      by (simp add: k power_int_minus divide_inverse)
    have "of_int (round_half_even (of_int a / 2 powi (e - 52))) * 2 powi (e - 52)
        = (of_int (a * 2 ^ k) :: rat) * 2 powi (e - 52)"
      unfolding q round_half_even_of_int ..
    also have "\<dots> = of_int a * (2 ^ k * inverse (2 ^ k))"
      by (simp add: k power_int_minus)
    also have "\<dots> = of_int a" by simp
    finally show ?thesis .
  next
    case False
    with e_hi have e53: "e = 53" by simp
    have "(2::rat) powi 53 \<le> of_int a"
      using floor_log2_bounds(1)[OF ar] by (simp add: e_def[symmetric] e53)
    then have "(of_int (2 ^ 53) :: rat) \<le> of_int a" by simp
    then have "2 ^ 53 \<le> a" by (simp only: of_int_le_iff)
    with a(2) have a53: "a = 2 ^ 53" by simp
    have q: "(of_int a :: rat) / 2 powi (e - 52) = of_int (2 ^ 52)"
      by (simp add: a53 e53)
    have "of_int (round_half_even (of_int a / 2 powi (e - 52))) * 2 powi (e - 52)
        = (of_int (2 ^ 52) :: rat) * 2 powi (e - 52)"
      unfolding q round_half_even_of_int ..
    also have "\<dots> = of_int a" by (simp add: a53 e53)
    finally show ?thesis .
  qed
  then have "round_binary64 (of_int n) = sgn (of_int n) * (of_int a :: rat)"
    by (simp add: rb mult.assoc)
  also have "\<dots> = of_int n" by (simp add: a_def sgn_if)
  finally show ?thesis .
qed



section \<open>Facts about the coordinate transform\<close>

lemma int_true_divide_unit:
  assumes "0 \<le> a" "a \<le> b" "0 < b"
  shows "int_true_divide a b = Inr (round_binary64 (of_int a / of_int b))"
    and "0 \<le> round_binary64 (of_int a / of_int b :: rat)"
    and "round_binary64 (of_int a / of_int b :: rat) \<le> 3"
proof -
  let ?x = "of_int a / of_int b :: rat"
  have x0: "0 \<le> ?x" using assms by simp
  have x1: "?x \<le> 1" using assms by (simp add: divide_le_eq_1)
  have "?x \<le> 2 ^ 1000" using x1 by (rule order_trans) simp
  then have "to_pyfloat ?x = Finite (round_binary64 ?x)" using x0 by (intro to_pyfloat_Finite)
  then show "int_true_divide a b = Inr (round_binary64 ?x)"
    using assms by (simp add: int_true_divide_def)
  show "0 \<le> round_binary64 ?x" using x0 by (rule round_binary64_nonneg)
  have "round_binary64 ?x \<le> 2 * ?x + 1" using x0 by (rule round_binary64_le)
  then show "round_binary64 ?x \<le> 3" using x1 by simp
qed

lemma float_of_int_exact:
  assumes "0 \<le> n" "n \<le> 2 ^ 53"
  shows "float_of_int n = Inr (of_int n)"
proof -
  have rb: "round_binary64 (of_int n) = of_int n"
    using assms by (intro round_binary64_of_int) simp
  have "(of_int n :: rat) \<le> of_int (2 ^ 53)" using assms(2) by (simp only: of_int_le_iff)
  also have "\<dots> \<le> 2 ^ 1000" by simp
  finally have "to_pyfloat (of_int n) = Finite (round_binary64 (of_int n))"
    using assms(1) by (intro to_pyfloat_Finite) simp_all
  then show ?thesis by (simp add: float_of_int_def rb)
qed

lemma scale_axis_value:
  assumes "lo < hi" "0 \<le> sdim" "sdim \<le> 2 ^ 53"
  shows "scale_axis lo hi sdim raw =
     Inr \<lfloor>round_binary64 (round_binary64
            (of_int (max lo (min raw hi) - lo) / of_int (hi - lo)) * of_int sdim)\<rfloor>"
proof -
  define a where "a = max lo (min raw hi) - lo"
  define q where "q = round_binary64 (of_int a / of_int (hi - lo))"
  have a: "0 \<le> a" "a \<le> hi - lo" "0 < hi - lo" using assms(1) by (auto simp: a_def)
  note d = int_true_divide_unit[OF a, folded q_def]
  have s: "float_of_int sdim = Inr (of_int sdim)" using assms(2,3) by (rule float_of_int_exact)
  have p0: "0 \<le> q * of_int sdim" using d(2) assms(2) by simp
  have sr: "(of_int sdim :: rat) \<le> of_int (2 ^ 53)" using assms(3) by (simp only: of_int_le_iff)
  have "q * of_int sdim \<le> 3 * of_int (2 ^ 53)"
    using d(2,3) assms(2) sr by (intro mult_mono) simp_all
  also have "\<dots> \<le> (2::rat) ^ 1000" by simp
  finally have p: "to_pyfloat (q * of_int sdim) = Finite (round_binary64 (q * of_int sdim))"
    using p0 by (intro to_pyfloat_Finite)
  have "0 \<le> round_binary64 (q * of_int sdim)" using p0 by (rule round_binary64_nonneg)
  then have "scale_axis lo hi sdim raw = Inr \<lfloor>round_binary64 (q * of_int sdim)\<rfloor>"
    by (simp add: scale_axis_def Let_def a_def[symmetric] d(1) bind_err_def float_mul_int_def s p
        py_int_def truncate_rat_def)
  then show ?thesis unfolding q_def a_def .
qed

lemma scale_axis_zero_width: "scale_axis lo lo sdim raw = Inl ZeroDivisionError"
  by (simp add: scale_axis_def int_true_divide_def bind_err_def)

lemma scale_axis_no_zero_division:
  "lo \<noteq> hi \<Longrightarrow> scale_axis lo hi sdim raw \<noteq> Inl ZeroDivisionError"
  by (auto simp: scale_axis_def int_true_divide_def bind_err_def float_mul_int_def float_of_int_def
      py_int_def Let_def split: sum.splits pyfloat.splits)

section \<open>Facts about strings and the recorder's invariant\<close>

lemma strip_empty_iff: "strip s = [] \<longleftrightarrow> list_all is_space s"
proof
  assume "strip s = []"
  then have all: "\<forall>c\<in>set (dropWhile is_space s). is_space c"
    by (simp add: strip_def dropWhile_eq_Nil_conv)
  have "dropWhile is_space s = []"
  proof (rule ccontr)
    assume ne: "dropWhile is_space s \<noteq> []"
    then have "\<not> is_space (hd (dropWhile is_space s))" by (rule hd_dropWhile)
    moreover have "hd (dropWhile is_space s) \<in> set (dropWhile is_space s)" using ne by simp
    ultimately show False using all by blast
  qed
  then show "list_all is_space s" by (simp add: dropWhile_eq_Nil_conv list_all_iff)
next
  assume "list_all is_space s"
  then have "dropWhile is_space s = []" by (simp add: dropWhile_eq_Nil_conv list_all_iff)
  then show "strip s = []" by (simp only: strip_def rev.simps dropWhile.simps)
qed

lemma strip_decomp:
  "\<exists>pre suf. s = pre @ strip s @ suf \<and> list_all is_space pre \<and> list_all is_space suf"
proof -
  define t where "t = dropWhile is_space s"
  have s: "s = takeWhile is_space s @ t" by (simp add: t_def)
  have "rev (takeWhile is_space (rev t) @ dropWhile is_space (rev t)) = t"
    by (simp only: takeWhile_dropWhile_id rev_rev_ident)
  then have "rev (dropWhile is_space (rev t)) @ rev (takeWhile is_space (rev t)) = t"
    by (simp only: rev_append)
  then have t: "t = strip s @ rev (takeWhile is_space (rev t))"
    by (simp only: strip_def t_def)
  have "s = takeWhile is_space s @ strip s @ rev (takeWhile is_space (rev t))"
    using s t by simp
  moreover have "list_all is_space (takeWhile is_space s)"
    by (simp add: list_all_iff) (meson set_takeWhileD)
  moreover have "list_all is_space (rev (takeWhile is_space (rev t)))"
    by (simp add: list_all_iff) (meson set_takeWhileD)
  ultimately show ?thesis by blast
qed

lemma strip_ends:
  assumes "strip s \<noteq> []"
  shows "\<not> is_space (hd (strip s))" "\<not> is_space (last (strip s))"
proof -
  define t where "t = dropWhile is_space s"
  define u where "u = dropWhile is_space (rev t)"
  have st: "strip s = rev u" by (simp add: strip_def t_def u_def)
  have u: "u \<noteq> []" using assms st by simp
  then have "\<not> is_space (hd u)" unfolding u_def by (rule hd_dropWhile)
  then show "\<not> is_space (last (strip s))" using u by (simp add: st last_rev)
  have t: "t \<noteq> []" using u by (auto simp: u_def)
  have "rev (takeWhile is_space (rev t) @ u) = t"
    by (simp only: u_def takeWhile_dropWhile_id rev_rev_ident)
  then have "t = rev u @ rev (takeWhile is_space (rev t))" by (simp only: rev_append)
  then have "hd t = hd (rev u)" using u by (metis hd_append2 rev_is_Nil_conv)
  moreover have "\<not> is_space (hd t)" using t unfolding t_def by (rule hd_dropWhile)
  ultimately show "\<not> is_space (hd (strip s))" by (simp add: st)
qed

lemma record_operation_operations:
  assumes "op_timestamp kwargs = None"
  shows "operations (record_operation r now kwargs) =
     (if 1 < float_sub (float_sub now (start_time r)) (last_operation_time r) \<and> operations r \<noteq> []
      then operations r @
           [wait_entry (float_sub (float_sub now (start_time r)) (last_operation_time r))
              (last_operation_time r),
            kwargs\<lparr>op_timestamp := Some (float_sub now (start_time r))\<rparr>]
      else operations r @ [kwargs\<lparr>op_timestamp := Some (float_sub now (start_time r))\<rparr>])"
  using assms by (simp add: record_operation_def Let_def)

text \<open>A timestamp among the keyword arguments is the one stored.\<close>

lemma record_operation_own_timestamp:
  assumes "op_timestamp kwargs = Some t"
  shows "last (operations (record_operation r now kwargs)) = kwargs"
  using assms by (simp add: record_operation_def Let_def)

lemma record_operation_consistent:
  "op_timestamp kwargs = None \<Longrightarrow> timestamps_consistent (record_operation r now kwargs)"
  by (simp add: timestamps_consistent_def record_operation_def Let_def)

lemma start_recording_consistent:
  "timestamps_consistent r \<Longrightarrow> timestamps_consistent (start_recording r now elems)"
  by (simp add: timestamps_consistent_def start_recording_def)

lemma recorder_defaults_consistent: "timestamps_consistent recorder_defaults"
  by (simp add: timestamps_consistent_def recorder_defaults_def)

lemma record_text_input_consistent:
  "timestamps_consistent r \<Longrightarrow> timestamps_consistent (record_text_input r now txt)"
  by (simp add: record_text_input_def record_operation_consistent empty_operation_def)

lemma set_kb_text_fields [simp]:
  "operations (set_kb_text r d t) = operations r"
  "last_operation_time (set_kb_text r d t) = last_operation_time r"
  "is_recording (set_kb_text r d t) = is_recording r"
  by (simp_all add: set_kb_text_def split: option.splits)

lemma set_kb_text_consistent:
  "timestamps_consistent r \<Longrightarrow> timestamps_consistent (set_kb_text r d t)"
  by (simp add: timestamps_consistent_def)

lemma timeout_callback_consistent:
  "timestamps_consistent r \<Longrightarrow> timestamps_consistent (timeout_callback r d now now_rec)"
  by (simp add: timeout_callback_def set_kb_text_consistent record_text_input_consistent
      split: option.splits)

lemma process_keyboard_event_consistent:
  assumes "timestamps_consistent r"
  shows "timestamps_consistent (fst (process_keyboard_event r d k now now_rec))"
proof -
  have c: "timestamps_consistent (r\<lparr>keyboard_cache := kc\<rparr>)" for kc
    using assms by (simp add: timestamps_consistent_def)
  show ?thesis
    by (simp add: process_keyboard_event_def Let_def set_kb_text_consistent
        record_text_input_consistent c)
qed

lemma kb_run_consistent:
  "timestamps_consistent r \<Longrightarrow> timestamps_consistent (kb_run r evs)"
  unfolding kb_run_def
proof (induction evs arbitrary: r)
  case Nil
  then show ?case by simp
next
  case (Cons ev evs)
  have "timestamps_consistent (kb_step r ev)"
    using Cons.prems
    by (cases ev) (simp_all add: process_keyboard_event_consistent timeout_callback_consistent)
  then show ?case using Cons.IH by simp
qed

section \<open>The coordinate transform: totality, truncation, degenerate ranges\<close>

lemma convert_raw_to_screen_fallback:
  assumes "0 < screen_width r" "0 < screen_height r"
  shows "convert_raw_to_screen r raw_x raw_y =
      (case convert_try r raw_x raw_y of
         Inr p \<Rightarrow> Inr p
       | Inl e \<Rightarrow> Inr (raw_x mod screen_width r, raw_y mod screen_height r))"
  using assms by (simp add: convert_raw_to_screen_def py_mod_def bind_err_def split: sum.splits)

lemma convert_raw_to_screen_in_screen:
  assumes "0 < screen_width r" "0 < screen_height r"
  shows "\<exists>sx sy. convert_raw_to_screen r raw_x raw_y = Inr (sx, sy) \<and>
           0 \<le> sx \<and> sx \<le> screen_width r \<and> 0 \<le> sy \<and> sy \<le> screen_height r"
proof (cases "convert_try r raw_x raw_y")
  case (Inl e)
  have "raw_x mod screen_width r < screen_width r" "raw_y mod screen_height r < screen_height r"
    using assms by simp_all
  then show ?thesis
    using assms by (simp add: convert_raw_to_screen_fallback[OF assms] Inl less_imp_le)
next
  case (Inr p)
  then show ?thesis using assms
    by (auto simp: convert_raw_to_screen_fallback[OF assms] convert_try_def bind_err_def
        split: sum.splits)
qed

lemma probe_line_screen:
  "screen_width (fst (probe_line r l)) = screen_width r \<and>
   screen_height (fst (probe_line r l)) = screen_height r"
  by (simp add: probe_line_def Let_def split: sum.splits bool.splits)

lemma probe_lines_screen:
  "screen_width (fst (probe_lines r ls)) = screen_width r \<and>
   screen_height (fst (probe_lines r ls)) = screen_height r"
proof (induction ls arbitrary: r)
  case Nil
  then show ?case by simp
next
  case (Cons l ls)
  obtain r' err where pl: "probe_line r l = (r', err)" by (cases "probe_line r l")
  have "screen_width r' = screen_width r \<and> screen_height r' = screen_height r"
    using probe_line_screen[of r l] by (simp add: pl)
  then show ?case using Cons.IH[of r'] by (cases err) (simp_all add: pl)
qed

lemma degenerate_guard_screen:
  "screen_width (degenerate_guard r) = screen_width r \<and>
   screen_height (degenerate_guard r) = screen_height r"
  by (simp add: degenerate_guard_def Let_def)

lemma init_touch_device_bounds_screen:
  "screen_width (init_touch_device_bounds r probe) = screen_width r \<and>
   screen_height (init_touch_device_bounds r probe) = screen_height r"
proof (cases probe)
  case (Inl e)
  then show ?thesis by (simp add: init_touch_device_bounds_def)
next
  case (Inr ls)
  obtain r' err where pl: "probe_lines r ls = (r', err)" by (cases "probe_lines r ls")
  have "screen_width r' = screen_width r \<and> screen_height r' = screen_height r"
    using probe_lines_screen[of r ls] by (simp add: pl)
  then show ?thesis
    by (cases err) (simp_all add: init_touch_device_bounds_def Inr pl degenerate_guard_screen)
qed

lemma recorder_init_screen:
  "screen_width (recorder_init probe) = 1080 \<and> screen_height (recorder_init probe) = 2400"
  using init_touch_device_bounds_screen[of recorder_defaults probe]
  by (simp add: recorder_init_def recorder_defaults_def)

text \<open>The ends of the raw range are mapped exactly: the low end and everything
  below it to \<open>0\<close>, the high end and everything above it to the screen dimension.\<close>

lemma round_binary64_zero: "round_binary64 0 = 0"
  by (simp add: round_binary64_def)

lemma trunc_axis_low:
  assumes "lo < hi" and "raw \<le> lo" and "0 \<le> sdim"
  shows "trunc_axis lo hi sdim raw = 0"
proof -
  have c: "max lo (min raw hi) = lo" using assms by simp
  show ?thesis
    unfolding trunc_axis_def Let_def c using assms(3) by (simp add: round_binary64_zero)
qed

lemma trunc_axis_high:
  assumes "lo < hi" and "hi \<le> raw" and "0 \<le> sdim" and "sdim \<le> 2 ^ 53"
  shows "trunc_axis lo hi sdim raw = sdim"
proof -
  have c: "max lo (min raw hi) = hi" using assms by simp
  have "(of_int (hi - lo) :: rat) / of_int (hi - lo) = of_int 1" using assms(1) by simp
  then have q: "round_binary64 (of_int (hi - lo) / of_int (hi - lo)) = 1"
    using round_binary64_of_int[of 1] by simp
  have p: "round_binary64 (of_int sdim) = of_int sdim"
    using assms(3,4) by (intro round_binary64_of_int) simp
  show ?thesis
    unfolding trunc_axis_def Let_def c q using assms(3) by (simp add: p)
qed

text \<open>The scenario of the spec: raw \<open>(16000, 16000)\<close>, raw range \<open>0\<close> to \<open>32767\<close>,
  screen \<open>1080 x 2400\<close>.\<close>

lemma scale_axis_16000_x: "scale_axis 0 32767 1080 16000 = Inr 527"
  by code_simp

lemma scale_axis_16000_y: "scale_axis 0 32767 2400 16000 = Inr 1171"
  by code_simp

lemma trunc_axis_16000: "trunc_axis 0 32767 1080 16000 = 527" "trunc_axis 0 32767 2400 16000 = 1171"
  by code_simp+

lemma spec_axis_16000: "spec_axis 0 32767 1080 16000 = 527" "spec_axis 0 32767 2400 16000 = 1172"
  by code_simp+

text \<open>
  Claim C3, as amended. For every raw input and every geometry with
  \<open>raw_max > raw_min\<close> on both axes (the screen dimensions being integers a float
  holds exactly), \<^verbatim>\<open>_convert_raw_to_screen\<close> raises nothing inside and returns, per
  axis, \<^verbatim>\<open>int((clamped - raw_min) / (raw_max - raw_min) * screen_dimension)\<close>: the
  float quotient times the screen dimension, truncated, then clamped to
  \<open>[0, screen_dimension]\<close>. For raw \<open>(16000, 16000)\<close> with range \<open>0\<close> to \<open>32767\<close> and
  screen \<open>1080 x 2400\<close> the result is \<open>(527, 1171)\<close>.
\<close>

theorem convert_raw_to_screen_truncates:
  assumes "raw_min_x r < raw_max_x r" and "raw_min_y r < raw_max_y r"
    and "0 \<le> screen_width r" and "screen_width r \<le> 2 ^ 53"
    and "0 \<le> screen_height r" and "screen_height r \<le> 2 ^ 53"
  shows "convert_raw_to_screen r raw_x raw_y =
     Inr (trunc_axis (raw_min_x r) (raw_max_x r) (screen_width r) raw_x,
          trunc_axis (raw_min_y r) (raw_max_y r) (screen_height r) raw_y)"
  by (simp add: convert_raw_to_screen_def convert_try_def bind_err_def trunc_axis_def Let_def
      scale_axis_value[OF assms(1,3,4)] scale_axis_value[OF assms(2,5,6)])

text \<open>The scenario of the spec is an instance.\<close>

theorem convert_raw_to_screen_truncates_witness:
  "raw_min_x recorder_defaults < raw_max_x recorder_defaults \<and>
   raw_min_y recorder_defaults < raw_max_y recorder_defaults \<and>
   0 \<le> screen_width recorder_defaults \<and> screen_width recorder_defaults \<le> 2 ^ 53 \<and>
   0 \<le> screen_height recorder_defaults \<and> screen_height recorder_defaults \<le> 2 ^ 53 \<and>
   convert_raw_to_screen recorder_defaults 16000 16000 = Inr (527, 1171)"
proof -
  have h: "raw_min_x recorder_defaults < raw_max_x recorder_defaults"
    "raw_min_y recorder_defaults < raw_max_y recorder_defaults"
    "0 \<le> screen_width recorder_defaults" "screen_width recorder_defaults \<le> 2 ^ 53"
    "0 \<le> screen_height recorder_defaults" "screen_height recorder_defaults \<le> 2 ^ 53"
    by (simp_all add: recorder_defaults_def)
  have "convert_raw_to_screen recorder_defaults 16000 16000 = Inr (527, 1171)"
    using convert_raw_to_screen_truncates[OF h, of 16000 16000]
    by (simp add: recorder_defaults_def trunc_axis_16000)
  with h show ?thesis by simp
qed

text \<open>Claim C3 as stated asks for rounding to the nearest integer, which gives
  \<open>1172\<close> on the second axis of the scenario; the code gives \<open>1171\<close>.\<close>

theorem convert_raw_to_screen_rounding_counterexample:
  "convert_raw_to_screen recorder_defaults 16000 16000 = Inr (527, 1171) \<and>
   spec_to_screen recorder_defaults 16000 16000 = (527, 1172)"
  by (simp add: convert_raw_to_screen_def convert_try_def bind_err_def spec_to_screen_def
      recorder_defaults_def scale_axis_16000_x scale_axis_16000_y spec_axis_16000)

text \<open>Two probes with \<open>raw_max \<le> raw_min\<close> on the first axis: one whose
  \<open>raw_min\<close> is \<open>32767\<close>, one whose \<open>raw_min\<close> is below it.\<close>

lemma recorder_init_zero_width:
  "recorder_init (Inr [''ABS_MT_POSITION_X a b 32767 c 100'']) =
     recorder_defaults\<lparr>raw_min_x := 32767, raw_max_x := 32767\<rparr>"
  by code_simp

text \<open>
  Claim C9. \<^verbatim>\<open>_convert_raw_to_screen\<close> never propagates an exception: for every pair
  of integers (the screen dimensions being positive, as \<^verbatim>\<open>__init__\<close> sets them) it
  returns coordinates within the screen bounds, and where the scaling fails it returns
  \<open>(raw_x mod screen_width, raw_y mod screen_height)\<close>.
\<close>

theorem convert_raw_to_screen_total:
  assumes "0 < screen_width r" and "0 < screen_height r"
  shows "(\<exists>sx sy. convert_raw_to_screen r raw_x raw_y = Inr (sx, sy) \<and>
            0 \<le> sx \<and> sx \<le> screen_width r \<and> 0 \<le> sy \<and> sy \<le> screen_height r) \<and>
         convert_raw_to_screen r raw_x raw_y =
           (case convert_try r raw_x raw_y of
              Inr p \<Rightarrow> Inr p
            | Inl e \<Rightarrow> Inr (raw_x mod screen_width r, raw_y mod screen_height r))"
  using convert_raw_to_screen_in_screen[OF assms] convert_raw_to_screen_fallback[OF assms]
  by blast

text \<open>A recorder whose probe left a range of width zero takes the fallback.\<close>

theorem convert_raw_to_screen_total_witness:
  "0 < screen_width (recorder_init (Inr [''ABS_MT_POSITION_X a b 32767 c 100''])) \<and>
   0 < screen_height (recorder_init (Inr [''ABS_MT_POSITION_X a b 32767 c 100''])) \<and>
   convert_try (recorder_init (Inr [''ABS_MT_POSITION_X a b 32767 c 100''])) 2000 5000
     = Inl ZeroDivisionError \<and>
   convert_raw_to_screen (recorder_init (Inr [''ABS_MT_POSITION_X a b 32767 c 100''])) 2000 5000
     = Inr (920, 200)"
proof -
  let ?r = "recorder_init (Inr [''ABS_MT_POSITION_X a b 32767 c 100''])"
  have h: "0 < screen_width ?r" "0 < screen_height ?r"
    by (simp_all add: recorder_init_screen)
  have t: "convert_try ?r 2000 5000 = Inl ZeroDivisionError"
    by (simp add: recorder_init_zero_width convert_try_def scale_axis_zero_width bind_err_def)
  have "convert_raw_to_screen ?r 2000 5000 = Inr (920, 200)"
    using convert_raw_to_screen_total[OF h, of 2000 5000]
    by (simp add: t recorder_init_screen)
  with h t show ?thesis by simp
qed

text \<open>What \<^verbatim>\<open>_init_touch_device_bounds\<close> leaves in the three cases of its \<^verbatim>\<open>try\<close>
  block, and what the guard does to a range.\<close>

lemma init_touch_device_bounds_cases:
  "init_touch_device_bounds r (Inl e) = r"
  "probe_lines r lines = (r1, Some e) \<Longrightarrow> init_touch_device_bounds r (Inr lines) = r1"
  "probe_lines r lines = (r1, None) \<Longrightarrow>
     init_touch_device_bounds r (Inr lines) = degenerate_guard r1"
  by (simp_all add: init_touch_device_bounds_def)

lemma degenerate_guard_ranges:
  "raw_min_x (degenerate_guard r) = raw_min_x r"
  "raw_min_y (degenerate_guard r) = raw_min_y r"
  "raw_max_x (degenerate_guard r) = (if raw_max_x r \<le> raw_min_x r then 32767 else raw_max_x r)"
  "raw_max_y (degenerate_guard r) = (if raw_max_y r \<le> raw_min_y r then 32767 else raw_max_y r)"
  by (simp_all add: degenerate_guard_def Let_def)

text \<open>After the guard a range has width zero exactly when it was degenerate with a
  minimum of \<open>32767\<close>; a degenerate range with a greater minimum stays reversed.\<close>

lemma degenerate_guard_zero_width:
  "raw_min_x (degenerate_guard r) = raw_max_x (degenerate_guard r) \<longleftrightarrow>
     raw_max_x r \<le> raw_min_x r \<and> raw_min_x r = 32767"
  "raw_min_y (degenerate_guard r) = raw_max_y (degenerate_guard r) \<longleftrightarrow>
     raw_max_y r \<le> raw_min_y r \<and> raw_min_y r = 32767"
  by (auto simp: degenerate_guard_ranges)

lemma degenerate_guard_positive_width:
  "raw_min_x (degenerate_guard r) < raw_max_x (degenerate_guard r) \<longleftrightarrow>
     raw_min_x r < raw_max_x r \<or> raw_min_x r < 32767"
  "raw_min_y (degenerate_guard r) < raw_max_y (degenerate_guard r) \<longleftrightarrow>
     raw_min_y r < raw_max_y r \<or> raw_min_y r < 32767"
  by (auto simp: degenerate_guard_ranges)

text \<open>The scaling of an axis divides by zero exactly on a range of width zero.\<close>

lemma scale_axis_zero_division_iff:
  "scale_axis lo hi sdim raw = Inl ZeroDivisionError \<longleftrightarrow> lo = hi"
  using scale_axis_zero_width[of lo sdim raw] scale_axis_no_zero_division[of lo hi sdim raw]
  by auto

text \<open>Whatever the probe gave, \<^verbatim>\<open>_convert_raw_to_screen\<close> raises nothing afterwards.\<close>

lemma convert_raw_to_screen_after_init:
  "\<exists>p. convert_raw_to_screen (recorder_init probe) raw_x raw_y = Inr p"
proof -
  have "0 < screen_width (recorder_init probe)" "0 < screen_height (recorder_init probe)"
    by (simp_all add: recorder_init_screen)
  from convert_raw_to_screen_in_screen[OF this] show ?thesis by blast
qed

lemma recorder_init_guard_skipped:
  "recorder_init (Inr [''ABS_MT_POSITION_X a b 100 c 100'', ''ABS_MT_POSITION_Y a b 7 c'']) =
     recorder_defaults\<lparr>raw_min_x := 100, raw_max_x := 100\<rparr>"
  "probe_lines recorder_defaults
     [''ABS_MT_POSITION_X a b 100 c 100'', ''ABS_MT_POSITION_Y a b 7 c''] =
     (recorder_defaults\<lparr>raw_min_x := 100, raw_max_x := 100\<rparr>, Some IndexError)"
  by code_simp+

lemma recorder_init_swapped:
  "recorder_init (Inr [''ABS_MT_POSITION_X a b 500 c 100'']) =
     recorder_defaults\<lparr>raw_min_x := 500, raw_max_x := 32767\<rparr>"
  by code_simp

text \<open>
  Claim C4 does not hold of the code. The guard after the loop assigns \<open>raw_max\<close>
  alone: a probed range \<open>500\<close> to \<open>100\<close> becomes \<open>500\<close> to \<open>32767\<close>, not \<open>0\<close> to
  \<open>32767\<close>, and a probed range \<open>32767\<close> to \<open>100\<close> becomes \<open>32767\<close> to \<open>32767\<close>, on
  which the scaling of raw \<open>(16000, 16000)\<close> divides by zero (the \<^verbatim>\<open>except\<close> branch
  then returns the remainders \<open>(880, 1600)\<close>). The loop and the guard are in one
  \<^verbatim>\<open>try\<close> block: after a range \<open>100\<close> to \<open>100\<close> was read, a line of five parts
  raises \<open>IndexError\<close> at \<^verbatim>\<open>parts[5]\<close>, the guard is skipped and the range stays
  \<open>100\<close> to \<open>100\<close>, on which the scaling divides by zero again.
\<close>

theorem init_touch_device_bounds_zero_width_range:
  "raw_min_x (recorder_init (Inr [''ABS_MT_POSITION_X a b 32767 c 100''])) = 32767 \<and>
   raw_max_x (recorder_init (Inr [''ABS_MT_POSITION_X a b 32767 c 100''])) = 32767 \<and>
   convert_try (recorder_init (Inr [''ABS_MT_POSITION_X a b 32767 c 100''])) 16000 16000
     = Inl ZeroDivisionError \<and>
   convert_raw_to_screen (recorder_init (Inr [''ABS_MT_POSITION_X a b 32767 c 100'']))
     16000 16000 = Inr (880, 1600) \<and>
   raw_min_x (recorder_init (Inr [''ABS_MT_POSITION_X a b 500 c 100''])) = 500 \<and>
   raw_max_x (recorder_init (Inr [''ABS_MT_POSITION_X a b 500 c 100''])) = 32767 \<and>
   raw_min_x (recorder_init
     (Inr [''ABS_MT_POSITION_X a b 100 c 100'', ''ABS_MT_POSITION_Y a b 7 c''])) = 100 \<and>
   raw_max_x (recorder_init
     (Inr [''ABS_MT_POSITION_X a b 100 c 100'', ''ABS_MT_POSITION_Y a b 7 c''])) = 100 \<and>
   convert_try (recorder_init
     (Inr [''ABS_MT_POSITION_X a b 100 c 100'', ''ABS_MT_POSITION_Y a b 7 c''])) 16000 16000
     = Inl ZeroDivisionError"
proof -
  have z: "convert_try (recorder_defaults\<lparr>raw_min_x := lo, raw_max_x := lo\<rparr>) 16000 16000
      = Inl ZeroDivisionError" for lo
    by (simp add: convert_try_def scale_axis_zero_width bind_err_def)
  have f: "convert_raw_to_screen (recorder_defaults\<lparr>raw_min_x := 32767, raw_max_x := 32767\<rparr>)
      16000 16000 = Inr (880, 1600)"
    unfolding convert_raw_to_screen_def z
    by (simp add: py_mod_def bind_err_def recorder_defaults_def)
  show ?thesis
    by (simp add: recorder_init_zero_width recorder_init_swapped recorder_init_guard_skipped(1)
        z f)
qed

section \<open>The recorder: waits, text input, the keyboard timeout\<close>

text \<open>
  Claim C7. For every call of \<^verbatim>\<open>_record_operation\<close> that passes no timestamp (neither
  caller does), in a state where \<open>last_operation_time\<close> is the timestamp of the last
  recorded operation (every state a recording reaches, by the lemmas on
  \<open>timestamps_consistent\<close> above): a \<open>WAIT\<close> entry is put right before the new
  operation iff an operation is already recorded and the gap between the new
  operation's timestamp and the previous one's exceeds \<open>1.0\<close>; otherwise the new
  operation alone is appended. With nothing recorded yet, no \<open>WAIT\<close> is put in. The
  \<open>WAIT\<close> carries the previous timestamp and the duration \<^verbatim>\<open>round(gap, 2)\<close>: the
  float nearest to \<open>k / 100\<close>, where \<open>k\<close> is the integer nearest to \<open>100 * gap\<close> (the
  even one of two equally near), and within \<open>k / 100 / 2 ^ 53\<close> of it.
\<close>

theorem record_operation_wait_synthesis:
  assumes "timestamps_consistent r"
    and "op_timestamp kwargs = None"
    and "current_time = float_sub now (start_time r)"
    and "previous = the (op_timestamp (last (operations r)))"
    and "gap = float_sub current_time previous"
  shows "operations (record_operation r now kwargs) =
           (if operations r \<noteq> [] \<and> 1 < gap
            then operations r @
                 [(empty_operation WAIT)\<lparr>op_duration := Some (py_round2 gap),
                                          op_timestamp := Some previous\<rparr>,
                  kwargs\<lparr>op_timestamp := Some current_time\<rparr>]
            else operations r @ [kwargs\<lparr>op_timestamp := Some current_time\<rparr>]) \<and>
         (\<exists>k. \<bar>of_int k - 100 * gap\<bar> \<le> 1 / 2 \<and>
              (\<bar>of_int k - 100 * gap\<bar> = 1 / 2 \<longrightarrow> even k) \<and>
              py_round2 gap = round_binary64 (of_int k / 100) \<and>
              (1 < gap \<longrightarrow> \<bar>py_round2 gap - of_int k / 100\<bar> \<le> of_int k / 100 / 2 ^ 53)) \<and>
         timestamps_consistent (record_operation r now kwargs)"
proof -
  have prev: "previous = last_operation_time r" if "operations r \<noteq> []"
    using assms(1,4) that by (simp add: timestamps_consistent_def)
  have "operations (record_operation r now kwargs) =
           (if operations r \<noteq> [] \<and> 1 < gap
            then operations r @
                 [(empty_operation WAIT)\<lparr>op_duration := Some (py_round2 gap),
                                          op_timestamp := Some previous\<rparr>,
                  kwargs\<lparr>op_timestamp := Some current_time\<rparr>]
            else operations r @ [kwargs\<lparr>op_timestamp := Some current_time\<rparr>])"
    using prev
    by (auto simp: record_operation_operations[OF assms(2)] assms(3,5) wait_entry_def)
  moreover note py_round2_nearest[of gap] record_operation_consistent[OF assms(2), of r now]
  ultimately show ?thesis by blast
qed

text \<open>A text at second 1 of a recording, then a click at second 2.125: the gap is
  \<open>1.125\<close> and the duration is \<open>1.12\<close>, as the float nearest to it. A click that is
  the first operation, five seconds into the recording, has no \<open>WAIT\<close> before it.\<close>

lemma first_text_recorded:
  "record_text_input (start_recording recorder_defaults 1000 []) 1001 ''hello'' =
     (start_recording recorder_defaults 1000 [])
       \<lparr>operations := [(empty_operation INPUT_TEXT)\<lparr>op_text := Some ''hello'',
                                                     op_timestamp := Some 1\<rparr>],
        last_operation_time := 1\<rparr>"
  by code_simp

lemma gap_values:
  "float_sub (8017 / 8) 1000 = 17 / 8" "float_sub (17 / 8) 1 = 9 / 8"
  "py_round2 (9 / 8) = 1261007895663739 / 1125899906842624"
  "float_sub 1005 1000 = 5"
  by code_simp+

theorem record_operation_wait_synthesis_witness:
  "timestamps_consistent
     (record_text_input (start_recording recorder_defaults 1000 []) 1001 ''hello'') \<and>
   op_timestamp (empty_operation CLICK) = None \<and>
   float_sub (float_sub (8017 / 8) 1000) 1 = 9 / 8 \<and>
   operations
     (record_operation
        (record_text_input (start_recording recorder_defaults 1000 []) 1001 ''hello'')
        (8017 / 8) (empty_operation CLICK)) =
     [(empty_operation INPUT_TEXT)\<lparr>op_text := Some ''hello'', op_timestamp := Some 1\<rparr>,
      (empty_operation WAIT)\<lparr>op_duration := Some (1261007895663739 / 1125899906842624),
                               op_timestamp := Some 1\<rparr>,
      (empty_operation CLICK)\<lparr>op_timestamp := Some (17 / 8)\<rparr>] \<and>
   (1261007895663739 / 1125899906842624 :: rat) \<noteq> 9 / 8 \<and>
   \<bar>1261007895663739 / 1125899906842624 - 112 / 100 :: rat\<bar> \<le> 112 / 100 / 2 ^ 53 \<and>
   operations
     (record_operation (start_recording recorder_defaults 1000 []) 1005 (empty_operation CLICK)) =
     [(empty_operation CLICK)\<lparr>op_timestamp := Some 5\<rparr>]"
proof -
  let ?s = "start_recording recorder_defaults 1000 []"
  let ?r = "record_text_input ?s 1001 ''hello''"
  have c0: "timestamps_consistent ?s"
    by (intro start_recording_consistent recorder_defaults_consistent)
  have c: "timestamps_consistent ?r"
    by (intro record_text_input_consistent start_recording_consistent
        recorder_defaults_consistent)
  have k: "op_timestamp (empty_operation CLICK) = None"
    by (simp add: empty_operation_def)
  have st: "start_time ?r = 1000" "start_time ?s = 1000" "operations ?s = []"
    by code_simp+
  have ops: "operations ?r =
      [(empty_operation INPUT_TEXT)\<lparr>op_text := Some ''hello'', op_timestamp := Some 1\<rparr>]"
    by (simp add: first_text_recorded)
  have cur: "17 / 8 = float_sub (8017 / 8) (start_time ?r)"
    by (simp only: st gap_values)
  have prev: "1 = the (op_timestamp (last (operations ?r)))"
    by (simp add: ops)
  have gap: "9 / 8 = float_sub (17 / 8) 1"
    by (simp only: gap_values)
  have a: "operations (record_operation ?r (8017 / 8) (empty_operation CLICK)) =
     [(empty_operation INPUT_TEXT)\<lparr>op_text := Some ''hello'', op_timestamp := Some 1\<rparr>,
      (empty_operation WAIT)\<lparr>op_duration := Some (1261007895663739 / 1125899906842624),
                               op_timestamp := Some 1\<rparr>,
      (empty_operation CLICK)\<lparr>op_timestamp := Some (17 / 8)\<rparr>]"
    using record_operation_wait_synthesis[OF c k cur prev gap]
    by (simp add: ops gap_values)
  have cur0: "5 = float_sub 1005 (start_time ?s)"
    by (simp only: st gap_values)
  have b: "operations (record_operation ?s 1005 (empty_operation CLICK)) =
     [(empty_operation CLICK)\<lparr>op_timestamp := Some 5\<rparr>]"
    using record_operation_wait_synthesis[OF c0 k cur0 refl refl]
    by (simp add: st)
  have g: "float_sub (float_sub (8017 / 8) 1000) 1 = 9 / 8"
    by (simp only: gap_values)
  have n: "(1261007895663739 / 1125899906842624 :: rat) \<noteq> 9 / 8"
    "\<bar>1261007895663739 / 1125899906842624 - 112 / 100 :: rat\<bar> \<le> 112 / 100 / 2 ^ 53"
    by simp_all
  show ?thesis using c k g a n b by blast
qed

text \<open>
  Claim C10. \<^verbatim>\<open>record_text_input\<close> changes nothing when the recording is inactive
  or the text is empty or all whitespace. Otherwise it appends (after the \<open>WAIT\<close>
  that \<^verbatim>\<open>_record_operation\<close> may put in) an \<open>input_text\<close> operation whose text is
  \<open>strip txt\<close>: the input without its leading and trailing whitespace.
\<close>

theorem record_text_input_guard_and_strip:
  "(if \<not> is_recording r \<or> list_all is_space txt
    then record_text_input r now txt = r
    else (\<exists>waits new. operations (record_text_input r now txt) = operations r @ waits @ [new] \<and>
            list_all (\<lambda>w. action_type w = WAIT) waits \<and>
            action_type new = INPUT_TEXT \<and> op_text new = Some (strip txt)) \<and>
         (\<exists>pre suf. txt = pre @ strip txt @ suf \<and> list_all is_space pre \<and>
            list_all is_space suf) \<and>
         strip txt \<noteq> [] \<and> \<not> is_space (hd (strip txt)) \<and> \<not> is_space (last (strip txt)))"
proof (cases "\<not> is_recording r \<or> list_all is_space txt")
  case True
  then show ?thesis by (auto simp: record_text_input_def strip_empty_iff)
next
  case False
  then have ne: "strip txt \<noteq> []" and rec: "is_recording r" by (simp_all add: strip_empty_iff)
  define kw where "kw = (empty_operation INPUT_TEXT)\<lparr>op_text := Some (strip txt)\<rparr>"
  define cur where "cur = float_sub now (start_time r)"
  have rt: "record_text_input r now txt = record_operation r now kw"
    using ne rec by (simp add: record_text_input_def kw_def)
  have kw: "op_timestamp kw = None"
    by (simp add: kw_def empty_operation_def)
  have "\<exists>waits. operations (record_operation r now kw) =
          operations r @ waits @ [kw\<lparr>op_timestamp := Some cur\<rparr>] \<and>
          list_all (\<lambda>w. action_type w = WAIT) waits"
  proof (cases "1 < float_sub cur (last_operation_time r) \<and> operations r \<noteq> []")
    case True
    then have "operations (record_operation r now kw) =
        operations r @ [wait_entry (float_sub cur (last_operation_time r)) (last_operation_time r)]
          @ [kw\<lparr>op_timestamp := Some cur\<rparr>]"
      by (simp add: record_operation_operations[OF kw] cur_def)
    moreover have "list_all (\<lambda>w. action_type w = WAIT)
        [wait_entry (float_sub cur (last_operation_time r)) (last_operation_time r)]"
      by (simp add: wait_entry_def empty_operation_def)
    ultimately show ?thesis by blast
  next
    case False
    then have "operations (record_operation r now kw) =
        operations r @ [] @ [kw\<lparr>op_timestamp := Some cur\<rparr>]"
      by (auto simp: record_operation_operations[OF kw] cur_def)
    moreover have "list_all (\<lambda>w. action_type w = WAIT) []" by simp
    ultimately show ?thesis by blast
  qed
  moreover have "action_type (kw\<lparr>op_timestamp := Some cur\<rparr>) = INPUT_TEXT"
    "op_text (kw\<lparr>op_timestamp := Some cur\<rparr>) = Some (strip txt)"
    by (simp_all add: kw_def empty_operation_def)
  ultimately have "\<exists>waits new. operations (record_text_input r now txt) =
      operations r @ waits @ [new] \<and> list_all (\<lambda>w. action_type w = WAIT) waits \<and>
      action_type new = INPUT_TEXT \<and> op_text new = Some (strip txt)"
    unfolding rt by blast
  then show ?thesis
    using False ne strip_decomp[of "txt"] strip_ends[OF ne] by simp
qed

theorem record_text_input_guard_and_strip_witness:
  "record_text_input recorder_defaults 1001 ''hello'' = recorder_defaults \<and>
   record_text_input (start_recording recorder_defaults 1000 []) 1001 ''   '' =
     start_recording recorder_defaults 1000 [] \<and>
   (\<exists>waits new.
      operations (record_text_input (start_recording recorder_defaults 1000 []) 1001 ''  hello '')
        = waits @ [new] \<and> op_text new = Some ''hello'')"
proof -
  let ?r = "start_recording recorder_defaults 1000 []"
  have a: "\<not> is_recording recorder_defaults" by (simp add: recorder_defaults_def)
  have b: "is_recording ?r" "operations ?r = []"
    by (simp_all add: start_recording_def recorder_defaults_def)
  have sp: "list_all is_space ''   ''" "\<not> list_all is_space ''  hello ''"
    "strip ''  hello '' = ''hello''"
    by code_simp+
  have 1: "record_text_input recorder_defaults 1001 ''hello'' = recorder_defaults"
    using record_text_input_guard_and_strip[of recorder_defaults "''hello''" 1001] a by simp
  have 2: "record_text_input ?r 1001 ''   '' = ?r"
    using record_text_input_guard_and_strip[of ?r "''   ''" 1001] sp(1) by simp
  have 3: "\<exists>waits new. operations (record_text_input ?r 1001 ''  hello '') = waits @ [new] \<and>
      op_text new = Some ''hello''"
    using record_text_input_guard_and_strip[of ?r "''  hello ''" 1001] b sp(2,3)
    by auto
  show ?thesis using 1 2 3 by blast
qed

text \<open>The callback does nothing unless it reads the clock more than the timeout
  after the last input.\<close>

lemma timeout_callback_within_timeout:
  assumes "map_of (keyboard_cache r) d = Some c"
    and "float_sub now (last_input_time c) \<le> input_timeout r"
  shows "timeout_callback r d now now_rec = r"
  using assms by (simp add: timeout_callback_def)

text \<open>
  Claim C8 does not hold of the code. \<^verbatim>\<open>_check_input_timeout\<close> starts its thread at
  once and the thread reads the clock at once: after a key at second 1010 the callback
  (here a millisecond later) finds the last input less than the timeout ago and does
  nothing. No later check is started, so the text stays in the buffer and no
  operation is recorded, however long the keyboard stays idle.
\<close>

theorem idle_timeout_flush_missing:
  "operations
     (kb_run (start_recording recorder_defaults 1000 [])
        [Key ''kbd'' ''KEY_A'' ''DOWN'' 1010 1010,
         Callback ''kbd'' (1010 + 1 / 1000) (1010 + 1 / 1000)]) = [] \<and>
   keyboard_cache
     (kb_run (start_recording recorder_defaults 1000 [])
        [Key ''kbd'' ''KEY_A'' ''DOWN'' 1010 1010,
         Callback ''kbd'' (1010 + 1 / 1000) (1010 + 1 / 1000)])
     = [(''kbd'', \<lparr>kb_text = ''a'', last_input_time = 1010\<rparr>)]"
  by code_simp

section \<open>The resolver: text and content description\<close>

lemma first_index_None: "first_index P xs i = None \<longleftrightarrow> (\<forall>x\<in>set xs. \<not> P x)"
  by (induction xs arbitrary: i) auto

lemma first_index_Some:
  assumes "k < length xs" "P (xs ! k)" "\<forall>j<k. \<not> P (xs ! j)"
  shows "first_index P xs i = Some (i + k)"
  using assms
proof (induction xs arbitrary: i k)
  case Nil
  then show ?case by simp
next
  case (Cons x xs)
  show ?case
  proof (cases k)
    case 0
    then show ?thesis using Cons.prems by simp
  next
    case (Suc k')
    have nx: "\<not> P x" using Cons.prems(3) Suc by auto
    have "first_index P xs (Suc i) = Some (Suc i + k')"
    proof (rule Cons.IH)
      show "k' < length xs" using Cons.prems(1) Suc by simp
      show "P (xs ! k')" using Cons.prems(2) Suc by simp
      show "\<forall>j<k'. \<not> P (xs ! j)" using Cons.prems(3) Suc by auto
    qed
    then show ?thesis using nx Suc by simp
  qed
qed

lemma long_press_loop_None:
  "long_press_loop e elems ts = None \<longleftrightarrow>
     (\<forall>t\<in>set ts. \<forall>el\<in>set elems. \<not> text_matches t el)"
proof (induction ts)
  case Nil
  then show ?case by simp
next
  case (Cons t ts)
  have "long_press_loop e elems (t # ts) = None \<longleftrightarrow>
      first_index (text_matches t) elems 0 = None \<and> long_press_loop e elems ts = None"
    by (cases "first_index (text_matches t) elems 0") simp_all
  then show ?case by (simp add: first_index_None Cons.IH)
qed

lemma long_press_loop_Some:
  assumes "k < length ts" "i < length elems" "text_matches (ts ! k) (elems ! i)"
    and "\<forall>k'<k. \<forall>el\<in>set elems. \<not> text_matches (ts ! k') el"
    and "\<forall>j<i. \<not> text_matches (ts ! k) (elems ! j)"
  shows "long_press_loop e elems ts =
     Some (sleep 2
       (execute_adb_action ((new_action LONG_PRESS)\<lparr>ja_index := Some (int i)\<rparr>) elems e))"
  using assms
proof (induction ts arbitrary: k)
  case Nil
  then show ?case by simp
next
  case (Cons t ts)
  show ?case
  proof (cases k)
    case 0
    then have "first_index (text_matches t) elems 0 = Some (0 + i)"
      using Cons.prems by (intro first_index_Some) simp_all
    then show ?thesis by simp
  next
    case (Suc k')
    have "\<forall>el\<in>set elems. \<not> text_matches t el"
      using Cons.prems(4) Suc by force
    then have none: "first_index (text_matches t) elems 0 = None"
      by (simp add: first_index_None)
    have "long_press_loop e elems ts =
       Some (sleep 2
         (execute_adb_action ((new_action LONG_PRESS)\<lparr>ja_index := Some (int i)\<rparr>) elems e))"
    proof (rule Cons.IH[of k'])
      show "k' < length ts" using Cons.prems(1) Suc by simp
      show "i < length elems" by (rule Cons.prems(2))
      show "text_matches (ts ! k') (elems ! i)" using Cons.prems(3) Suc by simp
      show "\<forall>k''<k'. \<forall>el\<in>set elems. \<not> text_matches (ts ! k'') el"
        using Cons.prems(4) Suc by force
      show "\<forall>j<i. \<not> text_matches (ts ! k') (elems ! j)" using Cons.prems(5) Suc by simp
    qed
    then show ?thesis using none by simp
  qed
qed

lemma text_matches_iff:
  "text_matches t el \<longleftrightarrow> (\<exists>s. elem_text el = Some s \<and> s \<noteq> [] \<and> lower t = lower s)"
  by (auto simp: text_matches_def split: option.splits)

text \<open>
  Claim C5, as amended. On a device that answers, \<^verbatim>\<open>_long_press_by_text\<close> selects by
  full-string equality under \<^verbatim>\<open>lower()\<close> against elements whose text is present and
  not empty: a candidate matches an element iff the element has a non-empty text equal
  to it after lowercase folding. Candidates are tried in list order and, within a
  candidate, the earliest matching element is long-pressed; when no candidate matches
  any element, the fallback index decides.
\<close>

theorem long_press_by_text_resolution:
  assumes "get_valid_controller e = Inr c" and "get_stable_ui_elements e = Inr elems"
  shows "(\<forall>t el. text_matches t el \<longleftrightarrow>
            (\<exists>s. elem_text el = Some s \<and> s \<noteq> [] \<and> lower t = lower s)) \<and>
         (\<forall>k i. k < length texts \<and> i < length elems \<and> text_matches (texts ! k) (elems ! i) \<and>
            (\<forall>k'<k. \<forall>el\<in>set elems. \<not> text_matches (texts ! k') el) \<and>
            (\<forall>j<i. \<not> text_matches (texts ! k) (elems ! j)) \<longrightarrow>
            long_press_by_text e texts fallback_index =
              Inr (sleep 2 (execute_adb_action
                     ((new_action LONG_PRESS)\<lparr>ja_index := Some (int i)\<rparr>) elems e))) \<and>
         ((\<forall>t\<in>set texts. \<forall>el\<in>set elems. \<not> text_matches t el) \<longrightarrow>
            long_press_by_text e texts fallback_index =
              fallback_long_press e elems fallback_index)"
proof (intro conjI allI impI)
  fix t el
  show "text_matches t el \<longleftrightarrow> (\<exists>s. elem_text el = Some s \<and> s \<noteq> [] \<and> lower t = lower s)"
    by (rule text_matches_iff)
next
  fix k i
  assume a: "k < length texts \<and> i < length elems \<and> text_matches (texts ! k) (elems ! i) \<and>
            (\<forall>k'<k. \<forall>el\<in>set elems. \<not> text_matches (texts ! k') el) \<and>
            (\<forall>j<i. \<not> text_matches (texts ! k) (elems ! j))"
  then have "long_press_loop e elems texts =
     Some (sleep 2
       (execute_adb_action ((new_action LONG_PRESS)\<lparr>ja_index := Some (int i)\<rparr>) elems e))"
    by (intro long_press_loop_Some[of k]) blast+
  then show "long_press_by_text e texts fallback_index =
      Inr (sleep 2 (execute_adb_action
             ((new_action LONG_PRESS)\<lparr>ja_index := Some (int i)\<rparr>) elems e))"
    by (simp add: long_press_by_text_def assms bind_err_def)
next
  assume "\<forall>t\<in>set texts. \<forall>el\<in>set elems. \<not> text_matches t el"
  then have "long_press_loop e elems texts = None" by (simp add: long_press_loop_None)
  then show "long_press_by_text e texts fallback_index =
      fallback_long_press e elems fallback_index"
    by (simp add: long_press_by_text_def assms bind_err_def)
qed

text \<open>A snapshot with \<open>Cancel\<close>, \<open>OK\<close> and \<open>ok\<close>: the candidate \<open>O\<close> matches nothing, the
  candidate \<open>ok\<close> matches \<open>OK\<close> first.\<close>

lemma static_env_valid:
  "get_valid_controller (static_env elems) = Inr AndroidWorldController"
  "get_stable_ui_elements (static_env elems) = Inr elems"
  by (simp_all add: static_env_def get_valid_controller_def get_stable_ui_elements_def)

lemma text_matches_examples:
  "text_matches ''ok'' (text_element ''OK'')"
  "\<not> text_matches ''O'' (text_element ''OK'')"
  "\<not> text_matches ''O'' (text_element ''Cancel'')"
  "\<not> text_matches ''ok'' (text_element ''Cancel'')"
  "\<not> text_matches ''O'' (text_element ''ok'')"
  "\<not> text_matches [] (text_element [])"
  by code_simp+

theorem long_press_by_text_resolution_witness:
  "get_valid_controller (static_env [text_element ''Cancel'', text_element ''OK'',
      text_element ''ok'']) = Inr AndroidWorldController \<and>
   get_stable_ui_elements (static_env [text_element ''Cancel'', text_element ''OK'',
      text_element ''ok'']) =
     Inr [text_element ''Cancel'', text_element ''OK'', text_element ''ok''] \<and>
   text_matches ''ok'' (text_element ''OK'') \<and> \<not> text_matches ''O'' (text_element ''OK'') \<and>
   long_press_by_text
     (static_env [text_element ''Cancel'', text_element ''OK'', text_element ''ok''])
     [''O'', ''ok''] None =
       Inr (sleep 2 (execute_adb_action ((new_action LONG_PRESS)\<lparr>ja_index := Some 1\<rparr>)
              [text_element ''Cancel'', text_element ''OK'', text_element ''ok'']
              (static_env [text_element ''Cancel'', text_element ''OK'', text_element ''ok''])))"
proof -
  let ?elems = "[text_element ''Cancel'', text_element ''OK'', text_element ''ok'']"
  let ?texts = "[''O'', ''ok'']"
  note r = long_press_by_text_resolution[OF static_env_valid(1)[of ?elems]
      static_env_valid(2)[of ?elems], where texts = ?texts and fallback_index = None]
  have "1 < length ?texts \<and> 1 < length ?elems \<and> text_matches (?texts ! 1) (?elems ! 1) \<and>
      (\<forall>k'<1. \<forall>el\<in>set ?elems. \<not> text_matches (?texts ! k') el) \<and>
      (\<forall>j<1. \<not> text_matches (?texts ! 1) (?elems ! j))"
    by (simp add: text_matches_examples)
  with r have "long_press_by_text (static_env ?elems) ?texts None =
      Inr (sleep 2 (execute_adb_action
             ((new_action LONG_PRESS)\<lparr>ja_index := Some (int 1)\<rparr>) ?elems (static_env ?elems)))"
    by blast
  then show ?thesis by (simp add: static_env_valid text_matches_examples)
qed

text \<open>Claim C5 as stated fails for an element whose text is empty: the candidate \<open>""\<close>
  equals it under lowercase folding, and the element is not selected.\<close>

theorem long_press_by_text_empty_text_counterexample:
  "elem_text (text_element []) = Some [] \<and> lower [] = lower [] \<and>
   long_press_by_text (static_env [text_element []]) [[]] None = Inl RuntimeError"
proof -
  have "elem_text (text_element []) = Some []" by (simp add: text_element_def)
  moreover have "long_press_by_text (static_env [text_element []]) [[]] None = Inl RuntimeError"
    by (simp add: long_press_by_text_def static_env_valid bind_err_def
        text_matches_examples fallback_long_press_def)
  ultimately show ?thesis by simp
qed

lemma desc_matches_examples:
  "\<not> desc_matches ''Start'' (described_element ''Stop recording'')"
  "desc_matches ''Stop'' (described_element ''Stop recording'')"
  "desc_matches ''recording'' (described_element ''Recording: foo'')"
  by code_simp+

lemma click_desc_loop_first_target_only:
  "click_desc_loop e elems (target # rest) = click_desc_loop e elems [target]"
  by simp

text \<open>
  Claim C1 does not hold of the code. With the candidates \<open>Start\<close> and \<open>Stop\<close> and an
  element described as \<open>Stop recording\<close>, the second candidate matches the element,
  but the call raises after the first candidate matched nothing. In the other order
  the element is clicked.
\<close>

theorem click_element_by_content_description_stops_early:
  "desc_matches ''Stop'' (described_element ''Stop recording'') \<and>
   click_element_by_content_description (static_env [described_element ''Stop recording''])
     [''Start'', ''Stop''] None = Inl RuntimeError \<and>
   click_element_by_content_description (static_env [described_element ''Stop recording''])
     [''Stop'', ''Start''] None =
       Inr (sleep (3 / 2) (execute_adb_action ((new_action CLICK)\<lparr>ja_index := Some 0\<rparr>)
              [described_element ''Stop recording'']
              (static_env [described_element ''Stop recording''])))"
  by (simp add: click_element_by_content_description_def static_env_valid bind_err_def
      desc_matches_examples)

section \<open>The replayer: the index fallback and the replay of a recording\<close>

lemma click_by_index_result:
  assumes "get_valid_controller e = Inr c" and "get_stable_ui_elements e = Inr elems"
  shows "click_by_index e i =
     (if 0 \<le> i \<and> i < int (length elems)
      then Inr (sleep (3 / 2)
             (execute_adb_action ((new_action CLICK)\<lparr>ja_index := Some i\<rparr>) elems e))
      else Inl IndexError)"
  by (simp add: click_by_index_def assms bind_err_def)

lemma click_by_coords_result:
  assumes "get_valid_controller e = Inr c" and "get_stable_ui_elements e = Inr elems"
  shows "click_by_coords e x y =
     Inr (sleep (3 / 2)
       (execute_adb_action ((new_action CLICK)\<lparr>ja_x := x, ja_y := y\<rparr>) elems e))"
  by (simp add: click_by_coords_def assms bind_err_def)

lemma click_by_coords_no_index_error: "click_by_coords e x y \<noteq> Inl IndexError"
  by (simp add: click_by_coords_def bind_err_def get_valid_controller_def
      get_stable_ui_elements_def split: option.splits)

lemma try_click_by_index_no_index_error:
  "exec_stmt e (Try_click_by_index i x y) \<noteq> Inl IndexError"
  by (simp add: click_by_coords_no_index_error split: sum.splits)

lemma effects_sleep_execute:
  "effects (sleep d (execute_adb_action a elems e)) = effects e @ [Execute a elems, Sleep d]"
  by (simp add: sleep_def execute_adb_action_def)

text \<open>
  Claim C2. On a device that answers, for every click step with a recorded index \<open>i\<close>
  and coordinates \<open>(x, y)\<close>: if \<open>i\<close> is outside \<open>[0, len(ui_elements))\<close> then
  \<^verbatim>\<open>_click_by_index\<close> raises \<^verbatim>\<open>IndexError\<close>, the step catches it and executes exactly
  one click at \<open>(x, y)\<close>; if \<open>i\<close> is inside, the click on index \<open>i\<close> is executed and
  no coordinate click. In no case does the step end in \<^verbatim>\<open>IndexError\<close>.
\<close>

theorem try_click_by_index_fallback:
  assumes "get_valid_controller e = Inr c" and "get_stable_ui_elements e = Inr elems"
  shows "(if 0 \<le> i \<and> i < int (length elems)
          then (\<exists>e'. click_by_index e i = Inr e' \<and>
                  exec_stmt e (Try_click_by_index i x y) = Inr e' \<and>
                  effects e' = effects e @
                    [Execute ((new_action CLICK)\<lparr>ja_index := Some i\<rparr>) elems, Sleep (3 / 2)])
          else click_by_index e i = Inl IndexError \<and>
               (\<exists>e'. exec_stmt e (Try_click_by_index i x y) = Inr e' \<and>
                  effects e' = effects e @
                    [Execute ((new_action CLICK)\<lparr>ja_x := x, ja_y := y\<rparr>) elems, Sleep (3 / 2)])) \<and>
         exec_stmt e (Try_click_by_index i x y) \<noteq> Inl IndexError"
  by (simp add: click_by_index_result[OF assms] click_by_coords_result[OF assms]
      effects_sleep_execute)

text \<open>Steps 8 and 3 of the recorded script on a screen of two elements: index 12 is
  out of range, index 1 is not.\<close>

theorem try_click_by_index_fallback_witness:
  "get_valid_controller (static_env [text_element ''a'', text_element ''b'']) =
     Inr AndroidWorldController \<and>
   get_stable_ui_elements (static_env [text_element ''a'', text_element ''b'']) =
     Inr [text_element ''a'', text_element ''b''] \<and>
   recorded_script ! 7 = Try_click_by_index 12 (Some 548) (Some 2172) \<and>
   click_by_index (static_env [text_element ''a'', text_element ''b'']) 12 = Inl IndexError \<and>
   map_sum id effects
     (exec_stmt (static_env [text_element ''a'', text_element ''b'']) (recorded_script ! 7)) =
     Inr [Execute ((new_action CLICK)\<lparr>ja_x := Some 548, ja_y := Some 2172\<rparr>)
            [text_element ''a'', text_element ''b''], Sleep (3 / 2)] \<and>
   recorded_script ! 2 = Try_click_by_index 1 (Some 371) (Some 216) \<and>
   map_sum id effects
     (exec_stmt (static_env [text_element ''a'', text_element ''b'']) (recorded_script ! 2)) =
     Inr [Execute ((new_action CLICK)\<lparr>ja_index := Some 1\<rparr>)
            [text_element ''a'', text_element ''b''], Sleep (3 / 2)]"
proof -
  let ?elems = "[text_element ''a'', text_element ''b'']"
  let ?e = "static_env ?elems"
  note v = static_env_valid(1)[of ?elems] static_env_valid(2)[of ?elems]
  have s7: "recorded_script ! 7 = Try_click_by_index 12 (Some 548) (Some 2172)"
    and s2: "recorded_script ! 2 = Try_click_by_index 1 (Some 371) (Some 216)"
    by (simp_all add: recorded_script_def)
  have e0: "effects ?e = []" by (simp add: static_env_def)
  have a: "click_by_index ?e 12 = Inl IndexError \<and>
      map_sum id effects (exec_stmt ?e (Try_click_by_index 12 (Some 548) (Some 2172))) =
        Inr [Execute ((new_action CLICK)\<lparr>ja_x := Some 548, ja_y := Some 2172\<rparr>) ?elems,
             Sleep (3 / 2)]"
    using try_click_by_index_fallback[OF v, of 12 "Some 548" "Some 2172"]
    by (auto simp: e0)
  have b: "map_sum id effects (exec_stmt ?e (Try_click_by_index 1 (Some 371) (Some 216))) =
        Inr [Execute ((new_action CLICK)\<lparr>ja_index := Some 1\<rparr>) ?elems, Sleep (3 / 2)]"
    using try_click_by_index_fallback[OF v, of 1 "Some 371" "Some 216"]
    by (auto simp: e0)
  show ?thesis unfolding s7 s2 using v a b by blast
qed

text \<open>What \<open>escape\<close> writes, Python reads back (a carriage return and a null
  character apart, which \<open>escape\<close> leaves bare in the literal).\<close>

lemma replace_char_Nil [simp]: "replace_char c rep [] = []"
  by (simp add: replace_char_def)

lemma replace_char_Cons:
  "replace_char c rep (d # s) = (if d = c then rep else [d]) @ replace_char c rep s"
  by (simp add: replace_char_def)

lemma replace_char_append:
  "replace_char c rep (a @ b) = replace_char c rep a @ replace_char c rep b"
  by (simp add: replace_char_def)

lemma escape_Nil [simp]: "escape [] = []"
  by (simp add: escape_def)

lemma escape_Cons: "escape (c # s) = escape_char c @ escape s"
  by (simp add: escape_def escape_char_def replace_char_Cons replace_char_append)

lemma read_literal_escape_char:
  assumes "c \<noteq> CHR 0x0D" and "c \<noteq> CHR 0x00"
  shows "read_literal (escape_char c @ rest) = map_option ((#) c) (read_literal rest)"
proof (cases rest)
  case Nil
  then show ?thesis using assms by (simp add: escape_char_def breaks_literal_def)
next
  case (Cons d cs)
  then show ?thesis using assms by (simp add: escape_char_def breaks_literal_def)
qed

lemma read_literal_escape:
  "CHR 0x0D \<notin> set s \<Longrightarrow> CHR 0x00 \<notin> set s \<Longrightarrow> read_literal (escape s) = Some s"
proof (induction s)
  case Nil
  then show ?case by simp
next
  case (Cons c s)
  then have "c \<noteq> CHR 0x0D" and "c \<noteq> CHR 0x00" and "read_literal (escape s) = Some s"
    by auto
  then show ?case by (simp add: escape_Cons read_literal_escape_char)
qed

lemma action_type_names:
  "lower ''click'' = ''click''" "lower ''input_text'' = ''input_text''"
  by code_simp+

lemma generate_click_without_element:
  "generate_step ((empty_operation ''click'')\<lparr>op_x := x, op_y := y\<rparr>) = Click_by_coords x y"
  by (simp add: generate_step_def empty_operation_def action_type_names)

lemma generate_input_text:
  "generate_step ((empty_operation ''input_text'')\<lparr>op_text := Some t\<rparr>) = Input_text (escape t)"
  by (simp add: generate_step_def empty_operation_def action_type_names)

lemma env_after_action:
  "is_async_env (sleep d (execute_adb_action a elems e)) = is_async_env e"
  "controller (sleep d (execute_adb_action a elems e)) = controller e"
  "screen (sleep d (execute_adb_action a elems e)) = screen e"
  by (simp_all add: sleep_def execute_adb_action_def)

text \<open>
  Claim C6. On a device that answers, a recording of a click at \<open>(x, y)\<close> with no
  element followed by an \<open>input_text\<close> of \<open>t\<close> (a text the generated literal can hold:
  no carriage return, no null character) is generated as a plain coordinate click
  (no \<^verbatim>\<open>_click_by_index\<close> attempt) and a text input, and replays as exactly: the click
  at \<open>(x, y)\<close>, then the text input carrying \<open>t\<close> with \<^verbatim>\<open>clear_text=True\<close> (each
  followed by its settle sleep). The sequence of the claim is \<open>x = 100\<close>, \<open>y = 200\<close>,
  \<open>t = "Hello"\<close>: the witness.
\<close>

theorem replay_click_then_input:
  assumes "is_async_env e" and "controller e = Some AndroidWorldController"
    and "\<forall>h. screen e h \<noteq> None" and "CHR 0x0D \<notin> set t" and "CHR 0x00 \<notin> set t"
  shows "generate_step_code
           [(empty_operation ''click'')\<lparr>op_x := Some x, op_y := Some y\<rparr>,
            (empty_operation ''input_text'')\<lparr>op_text := Some t\<rparr>] =
           [Click_by_coords (Some x) (Some y), Input_text (escape t)] \<and>
         (let s1 = the (screen e (effects e));
              h1 = effects e @
                [Execute ((new_action CLICK)\<lparr>ja_x := Some x, ja_y := Some y\<rparr>) s1, Sleep (3 / 2)];
              s2 = the (screen e h1)
          in \<exists>e'.
            replay [(empty_operation ''click'')\<lparr>op_x := Some x, op_y := Some y\<rparr>,
                    (empty_operation ''input_text'')\<lparr>op_text := Some t\<rparr>] e = Inr e' \<and>
            effects e' = h1 @
              [Execute ((new_action INPUT_TEXT)\<lparr>ja_text := Some t, ja_clear_text := Some True\<rparr>) s2,
               Sleep 1])"
proof -
  let ?click = "(new_action CLICK)\<lparr>ja_x := Some x, ja_y := Some y\<rparr>"
  let ?input = "(new_action INPUT_TEXT)\<lparr>ja_text := Some t, ja_clear_text := Some True\<rparr>"
  have prog: "generate_step_code
           [(empty_operation ''click'')\<lparr>op_x := Some x, op_y := Some y\<rparr>,
            (empty_operation ''input_text'')\<lparr>op_text := Some t\<rparr>] =
           [Click_by_coords (Some x) (Some y), Input_text (escape t)]"
    by (simp add: generate_step_code_def generate_click_without_element generate_input_text)
  have lit: "read_literal (escape t) = Some t" using assms(4,5) by (rule read_literal_escape)
  define s1 where "s1 = the (screen e (effects e))"
  have s1: "screen e (effects e) = Some s1" using assms(3) by (simp add: s1_def)
  define e1 where "e1 = sleep (3 / 2) (execute_adb_action ?click s1 e)"
  have h1: "effects e1 = effects e @ [Execute ?click s1, Sleep (3 / 2)]"
    by (simp add: e1_def effects_sleep_execute)
  define s2 where "s2 = the (screen e (effects e1))"
  have s2: "screen e (effects e1) = Some s2" using assms(3) by (simp add: s2_def)
  define e2 where "e2 = sleep 1 (execute_adb_action ?input s2 e1)"
  have c: "get_valid_controller e = Inr AndroidWorldController"
    by (simp add: get_valid_controller_def assms(2))
  have u: "get_stable_ui_elements e = Inr s1" by (simp add: get_stable_ui_elements_def s1)
  have step1: "click_by_coords e (Some x) (Some y) = Inr e1"
    by (simp add: click_by_coords_result[OF c u] e1_def)
  have c1: "get_valid_controller e1 = Inr AndroidWorldController"
    by (simp add: get_valid_controller_def e1_def env_after_action assms(2))
  have u1: "get_stable_ui_elements e1 = Inr s2"
    using s2 by (simp add: get_stable_ui_elements_def e1_def env_after_action)
  have step2: "input_text e1 t = Inr e2"
    by (simp add: input_text_def c1 u1 bind_err_def e2_def)
  have run: "replay [(empty_operation ''click'')\<lparr>op_x := Some x, op_y := Some y\<rparr>,
                    (empty_operation ''input_text'')\<lparr>op_text := Some t\<rparr>] e = Inr e2"
    by (simp add: replay_def prog run_operations_def well_formed_def lit assms(1) step1 step2
        bind_err_def)
  have eff: "effects e2 = effects e1 @ [Execute ?input s2, Sleep 1]"
    by (simp add: e2_def effects_sleep_execute)
  have "\<exists>e'. replay [(empty_operation ''click'')\<lparr>op_x := Some x, op_y := Some y\<rparr>,
                    (empty_operation ''input_text'')\<lparr>op_text := Some t\<rparr>] e = Inr e' \<and>
      effects e' = effects e1 @ [Execute ?input s2, Sleep 1]"
    using run eff by blast
  then show ?thesis
    unfolding Let_def s1_def[symmetric] h1[symmetric] s2_def[symmetric] using prog by blast
qed

theorem replay_click_then_input_witness:
  "is_async_env (static_env []) \<and> controller (static_env []) = Some AndroidWorldController \<and>
   (\<forall>h. screen (static_env []) h \<noteq> None) \<and> CHR 0x0D \<notin> set ''Hello'' \<and>
   CHR 0x00 \<notin> set ''Hello'' \<and>
   generate_step_code
     [(empty_operation ''click'')\<lparr>op_x := Some 100, op_y := Some 200\<rparr>,
      (empty_operation ''input_text'')\<lparr>op_text := Some ''Hello''\<rparr>] =
     [Click_by_coords (Some 100) (Some 200), Input_text ''Hello''] \<and>
   map_sum id effects
     (replay [(empty_operation ''click'')\<lparr>op_x := Some 100, op_y := Some 200\<rparr>,
              (empty_operation ''input_text'')\<lparr>op_text := Some ''Hello''\<rparr>] (static_env [])) =
     Inr [Execute ((new_action CLICK)\<lparr>ja_x := Some 100, ja_y := Some 200\<rparr>) [],
          Sleep (3 / 2),
          Execute ((new_action INPUT_TEXT)\<lparr>ja_text := Some ''Hello'', ja_clear_text := Some True\<rparr>) [],
          Sleep 1]"
proof -
  have h: "is_async_env (static_env [])" "controller (static_env []) = Some AndroidWorldController"
    "\<forall>h. screen (static_env []) h \<noteq> None" "CHR 0x0D \<notin> set ''Hello''"
    "CHR 0x00 \<notin> set ''Hello''"
    by (simp_all add: static_env_def)
  have esc: "escape ''Hello'' = ''Hello''" by code_simp
  have scr: "screen (static_env []) = (\<lambda>h. Some [])" "effects (static_env []) = []"
    by (simp_all add: static_env_def)
  note r = replay_click_then_input[OF h, where x = 100 and y = 200]
  have "map_sum id effects
     (replay [(empty_operation ''click'')\<lparr>op_x := Some 100, op_y := Some 200\<rparr>,
              (empty_operation ''input_text'')\<lparr>op_text := Some ''Hello''\<rparr>] (static_env [])) =
     Inr [Execute ((new_action CLICK)\<lparr>ja_x := Some 100, ja_y := Some 200\<rparr>) [],
          Sleep (3 / 2),
          Execute ((new_action INPUT_TEXT)\<lparr>ja_text := Some ''Hello'', ja_clear_text := Some True\<rparr>) [],
          Sleep 1]"
    using r by (auto simp: Let_def scr)
  moreover have "generate_step_code
     [(empty_operation ''click'')\<lparr>op_x := Some 100, op_y := Some 200\<rparr>,
      (empty_operation ''input_text'')\<lparr>op_text := Some ''Hello''\<rparr>] =
     [Click_by_coords (Some 100) (Some 200), Input_text ''Hello'']"
    using r by (simp add: esc)
  ultimately show ?thesis using h by blast
qed

end
